theory Spec2Isabelle
  imports Complex_Main "HOL-Library.Multiset"
begin

section \<open>Record linkage of trading screenshots: the matcher of \<open>image_analyzer.py\<close>\<close>

text \<open>
  The development embeds \<open>ImageAnalyzer._calculate_match_score\<close>,
  \<open>ImageAnalyzer.match_signals_to_results\<close> and \<open>ImageAnalyzer.detect_coin_name\<close>.
  Python floats are read as real numbers, Python dictionaries with a fixed set of keys as
  records whose fields say whether the key is there.
\<close>

subsection \<open>Dictionaries with optional keys\<close>

text \<open>
  A key of a Python dictionary is absent, bound to \<open>None\<close>, or bound to a value.
  \<open>d.get(k)\<close> does not tell the first two apart, \<open>d.get(k, default)\<close> does: the default
  is returned for an absent key only.
\<close>

datatype 'a entry = Missing | PyNone | Val 'a

fun dict_get :: "'a entry \<Rightarrow> 'a option" where
  "dict_get Missing = None"
| "dict_get PyNone = None"
| "dict_get (Val v) = Some v"

fun dict_get_default :: "'a entry \<Rightarrow> 'a option \<Rightarrow> 'a option" where
  "dict_get_default Missing d = d"
| "dict_get_default PyNone d = None"
| "dict_get_default (Val v) d = Some v"

text \<open>
  Truth values of Python: \<open>None\<close>, the empty string and the number zero are false.
  The functions below test a value that is there; \<open>None\<close> is a case of its own
  wherever a guard is modelled.
\<close>

definition truthy_str :: "string \<Rightarrow> bool" where
  "truthy_str s = (s \<noteq> [])"

definition truthy_num :: "real \<Rightarrow> bool" where
  "truthy_num x = (x \<noteq> 0)"

definition py_or :: "real option \<Rightarrow> real option \<Rightarrow> real option" where
  \<comment> \<open>\<open>a or b\<close>: the first operand when it is true, the second otherwise\<close>
  "py_or a b = (case a of None \<Rightarrow> b | Some x \<Rightarrow> if truthy_num x then a else b)"

subsection \<open>Timestamps\<close>

text \<open>
  A timestamp entry holds a text. What the matcher does with it depends on what
  \<open>datetime.fromisoformat\<close> makes of the text: the empty text is false in the guard,
  a text that is no ISO date raises \<open>ValueError\<close>, and a valid text denotes an
  instant, in seconds, either without a zone (naive) or with one (aware). Subtracting
  a naive from an aware instant raises \<open>TypeError\<close>.
\<close>

datatype py_error = TypeError | ValueError

datatype datetime = Naive real | Aware real

datatype time_text = Empty_text | Invalid_text | Iso_text datetime

definition truthy_time :: "time_text \<Rightarrow> bool" where
  "truthy_time t = (t \<noteq> Empty_text)"

fun fromisoformat :: "time_text \<Rightarrow> py_error + datetime" where
  "fromisoformat (Iso_text d) = Inr d"
| "fromisoformat Invalid_text = Inl ValueError"
| "fromisoformat Empty_text = Inl ValueError"

fun total_seconds_between :: "datetime \<Rightarrow> datetime \<Rightarrow> py_error + real" where
  \<comment> \<open>\<open>(result_dt - signal_dt).total_seconds()\<close>\<close>
  "total_seconds_between (Naive r) (Naive s) = Inr (r - s)"
| "total_seconds_between (Aware r) (Aware s) = Inr (r - s)"
| "total_seconds_between (Naive r) (Aware s) = Inl TypeError"
| "total_seconds_between (Aware r) (Naive s) = Inl TypeError"

subsection \<open>The similarity ratio of \<open>difflib.SequenceMatcher\<close>\<close>

text \<open>
  \<open>SequenceMatcher(None, a, b).ratio()\<close> is \<open>2 * M / (len a + len b)\<close>, where \<open>M\<close> is the
  total size of the matching blocks: the longest common block (the one starting earliest
  in \<open>a\<close>, then earliest in \<open>b\<close>, among the longest), and recursively the blocks to its
  left and to its right. The automatic junk heuristic applies to sequences of 200
  elements and more only; coin symbols are far shorter.
\<close>

fun match_len :: "'a list \<Rightarrow> 'a list \<Rightarrow> nat" where
  "match_len (x # xs) (y # ys) = (if x = y then Suc (match_len xs ys) else 0)"
| "match_len [] ys = 0"
| "match_len xs [] = 0"

definition better_block :: "'a list \<Rightarrow> 'a list \<Rightarrow> nat \<times> nat \<Rightarrow> nat \<times> nat \<times> nat \<Rightarrow> nat \<times> nat \<times> nat" where
  "better_block a b = (\<lambda>(i, j) (besti, bestj, bestsize).
     let k = match_len (drop i a) (drop j b)
     in if k > bestsize then (i, j, k) else (besti, bestj, bestsize))"

definition find_longest_match :: "'a list \<Rightarrow> 'a list \<Rightarrow> nat \<times> nat \<times> nat" where
  "find_longest_match a b =
     fold (better_block a b) (List.product [0..<length a] [0..<length b]) (0, 0, 0)"

lemma match_len_le: "match_len xs ys \<le> length xs \<and> match_len xs ys \<le> length ys"
  by (induction xs ys rule: match_len.induct) auto

lemma better_block_bounds:
  assumes "better_block a b p (i0, j0, k0) = (i, j, k)"
    and "i0 + k0 \<le> length a" and "j0 + k0 \<le> length b"
  shows "i + k \<le> length a \<and> j + k \<le> length b"
proof -
  obtain pi pj where p: "p = (pi, pj)" by (cases p) auto
  have "match_len (drop pi a) (drop pj b) \<le> length a - pi"
    and "match_len (drop pi a) (drop pj b) \<le> length b - pj"
    using match_len_le [of "drop pi a" "drop pj b"] by simp_all
  then show ?thesis
    using assms by (auto simp: better_block_def p Let_def split: if_splits)
qed

lemma fold_better_block_bounds:
  "fold (better_block a b) ps (i0, j0, k0) = (i, j, k) \<Longrightarrow>
   i0 + k0 \<le> length a \<Longrightarrow> j0 + k0 \<le> length b \<Longrightarrow>
   i + k \<le> length a \<and> j + k \<le> length b"
proof (induction ps arbitrary: i0 j0 k0)
  case Nil
  then show ?case by simp
next
  case (Cons p ps)
  obtain i1 j1 k1 where step: "better_block a b p (i0, j0, k0) = (i1, j1, k1)"
    by (cases "better_block a b p (i0, j0, k0)") auto
  from better_block_bounds [OF step Cons.prems(2) Cons.prems(3)]
  have "i1 + k1 \<le> length a" and "j1 + k1 \<le> length b" by simp_all
  moreover have "fold (better_block a b) ps (i1, j1, k1) = (i, j, k)"
    using Cons.prems(1) step by simp
  ultimately show ?case
    by (rule Cons.IH [rotated])
qed

lemma find_longest_match_bounds:
  "find_longest_match a b = (i, j, k) \<Longrightarrow> i + k \<le> length a \<and> j + k \<le> length b"
  unfolding find_longest_match_def
  by (erule fold_better_block_bounds) simp_all

function matching_size :: "'a list \<Rightarrow> 'a list \<Rightarrow> nat" where
  "matching_size a b =
     (case find_longest_match a b of (i, j, k) \<Rightarrow>
        if k = 0 then 0
        else matching_size (take i a) (take j b) + k
           + matching_size (drop (i + k) a) (drop (j + k) b))"
  by pat_completeness auto
termination
  apply (relation "measure (\<lambda>(a, b). length a + length b)")
    apply simp
   apply (auto dest!: find_longest_match_bounds [OF sym])
  done

declare matching_size.simps [simp del]

definition ratio :: "'a list \<Rightarrow> 'a list \<Rightarrow> real" where
  "ratio a b =
     (if length a + length b = 0 then 1
      else 2 * real (matching_size a b) / real (length a + length b))"

subsection \<open>The data of one analysed image\<close>

text \<open>
  \<open>analyze_image\<close> returns a dictionary; the matcher reads six of its keys. Every key
  may be absent, bound to \<open>None\<close> or bound to a value of its type.
\<close>

record image_data =
  coin :: "string entry"
  entry_price :: "real entry"
  exit_price :: "real entry"
  roi :: "real entry"
  status :: "string entry"
  timestamp :: "time_text entry"

text \<open>
  An element of \<open>processed_data\<close>. Its \<open>data\<close> is \<open>None\<close> here when the Python
  value is false (\<open>None\<close> or the empty dictionary), which is all that the matcher asks
  of it before reading keys.
\<close>

record item =
  type :: string
  path :: string
  data :: "image_data option"

record config =
  auto_match_threshold :: real

text \<open>
  A trade as the matcher emits it. Every branch sets the key \<open>roi\<close>, so it is there
  and holds a number or \<open>None\<close>. The keys \<open>entry_price\<close> and \<open>exit_price\<close>
  are each left out by one branch; \<open>None\<close> stands for that too.
\<close>

record trade =
  trade_coin :: string
  trade_entry_price :: "real option"
  trade_exit_price :: "real option"
  trade_roi :: "real option"
  trade_status :: "string option"
  signal_image :: "string option"
  result_image :: "string option"
  match_confidence :: real
  trade_timestamp :: "time_text option"

subsection \<open>The match score\<close>

text \<open>
  \<open>_calculate_match_score\<close> keeps two running sums, \<open>score\<close> and \<open>max_score\<close>.
  Each of its three blocks is a function on that pair.
\<close>

type_synonym tally = "real \<times> real"

definition coin_agreement :: "image_data \<Rightarrow> image_data \<Rightarrow> tally \<Rightarrow> tally" where
  "coin_agreement signal_data result_data = (\<lambda>(score, max_score).
     case (dict_get (coin signal_data), dict_get (coin result_data)) of
       (Some signal_coin, Some result_coin) \<Rightarrow>
         if truthy_str signal_coin \<and> truthy_str result_coin then
           (if signal_coin = result_coin then score + 0.6
            else score + 0.6 * ratio signal_coin result_coin * 0.5,
            max_score + 0.6)
         else (score, max_score)
     | _ \<Rightarrow> (score, max_score))"

definition time_diff :: "time_text \<Rightarrow> time_text \<Rightarrow> py_error + real" where
  \<comment> \<open>the three statements of the inner \<open>try\<close> that can raise\<close>
  "time_diff signal_time result_time =
     (case fromisoformat signal_time of
        Inl e \<Rightarrow> Inl e
      | Inr signal_dt \<Rightarrow>
         (case fromisoformat result_time of
            Inl e \<Rightarrow> Inl e
          | Inr result_dt \<Rightarrow>
             (case total_seconds_between result_dt signal_dt of
                Inl e \<Rightarrow> Inl e
              | Inr seconds \<Rightarrow> Inr \<bar>seconds\<bar>)))"

definition timestamp_proximity :: "image_data \<Rightarrow> image_data \<Rightarrow> tally \<Rightarrow> tally" where
  "timestamp_proximity signal_data result_data = (\<lambda>(score, max_score).
     case (dict_get (timestamp signal_data), dict_get (timestamp result_data)) of
       (Some signal_time, Some result_time) \<Rightarrow>
         if truthy_time signal_time \<and> truthy_time result_time then
           (case time_diff signal_time result_time of
              Inl e \<Rightarrow> (score, max_score + 0.2)
            | Inr d \<Rightarrow>
               (if d \<le> 3600 then score + 0.2
                else if d \<le> 86400 then score + 0.2 * (1 - d / 86400)
                else score,
                max_score + 0.2))
         else (score, max_score)
     | _ \<Rightarrow> (score, max_score))"

definition price_consistency :: "image_data \<Rightarrow> image_data \<Rightarrow> tally \<Rightarrow> tally" where
  "price_consistency signal_data result_data = (\<lambda>(score, max_score).
     case (dict_get (entry_price signal_data),
           py_or (dict_get (entry_price result_data)) (dict_get (exit_price result_data))) of
       (Some signal_price, Some result_price) \<Rightarrow>
         if truthy_num signal_price \<and> truthy_num result_price then
           (let price_ratio = min signal_price result_price / max signal_price result_price
            in (if price_ratio > 0.8 then score + 0.2 * price_ratio else score,
                max_score + 0.2))
         else (score, max_score)
     | _ \<Rightarrow> (score, max_score))"

definition calculate_match_score :: "image_data \<Rightarrow> image_data \<Rightarrow> real" where
  "calculate_match_score signal_data result_data =
     (case price_consistency signal_data result_data
             (timestamp_proximity signal_data result_data
               (coin_agreement signal_data result_data (0, 0))) of
        (score, max_score) \<Rightarrow> if max_score > 0 then score / max_score else 0)"

subsection \<open>The matcher\<close>

text \<open>
  The inner loop of \<open>match_signals_to_results\<close> over \<open>enumerate(results)\<close>. Its state
  is the pair \<open>(best_match, best_score)\<close>.
\<close>

fun scan_results :: "real \<Rightarrow> image_data \<Rightarrow> nat set \<Rightarrow> (nat \<times> item) list
    \<Rightarrow> nat option \<times> real \<Rightarrow> nat option \<times> real" where
  "scan_results threshold signal_data used_results [] best = best"
| "scan_results threshold signal_data used_results ((i, result) # rest) (best_match, best_score) =
     (if i \<in> used_results then
        scan_results threshold signal_data used_results rest (best_match, best_score)
      else case data result of
        None \<Rightarrow> scan_results threshold signal_data used_results rest (best_match, best_score)
      | Some result_data \<Rightarrow>
          (let score = calculate_match_score signal_data result_data
           in if score > best_score \<and> score \<ge> threshold
              then scan_results threshold signal_data used_results rest (Some i, score)
              else scan_results threshold signal_data used_results rest (best_match, best_score)))"

text \<open>The three dictionaries that the matcher builds.\<close>

definition matched_trade :: "item \<Rightarrow> image_data \<Rightarrow> item \<Rightarrow> image_data \<Rightarrow> real \<Rightarrow> trade" where
  "matched_trade signal signal_data result result_data best_score =
     \<lparr> trade_coin = (case dict_get (coin signal_data) of Some c \<Rightarrow> c | None \<Rightarrow> []),
       trade_entry_price = dict_get (entry_price signal_data),
       trade_exit_price = dict_get (exit_price result_data),
       trade_roi = dict_get_default (roi result_data) (dict_get (roi signal_data)),
       trade_status = dict_get_default (status result_data) (Some ''unknown''),
       signal_image = Some (path signal),
       result_image = Some (path result),
       match_confidence = best_score,
       trade_timestamp = dict_get (timestamp signal_data) \<rparr>"

definition signal_only_trade :: "item \<Rightarrow> image_data \<Rightarrow> trade" where
  "signal_only_trade signal signal_data =
     \<lparr> trade_coin = (case dict_get (coin signal_data) of Some c \<Rightarrow> c | None \<Rightarrow> []),
       trade_entry_price = dict_get (entry_price signal_data),
       trade_exit_price = None,
       trade_roi = dict_get (roi signal_data),
       trade_status = dict_get_default (status signal_data) (Some ''pending''),
       signal_image = Some (path signal),
       result_image = None,
       match_confidence = 0,
       trade_timestamp = dict_get (timestamp signal_data) \<rparr>"

definition result_only_trade :: "item \<Rightarrow> image_data \<Rightarrow> trade" where
  "result_only_trade result result_data =
     \<lparr> trade_coin = (case dict_get (coin result_data) of Some c \<Rightarrow> c | None \<Rightarrow> []),
       trade_entry_price = None,
       trade_exit_price = dict_get (exit_price result_data),
       trade_roi = dict_get (roi result_data),
       trade_status = dict_get_default (status result_data) (Some ''unknown''),
       signal_image = None,
       result_image = Some (path result),
       match_confidence = 0,
       trade_timestamp = dict_get (timestamp result_data) \<rparr>"

definition has_coin :: "image_data \<Rightarrow> bool" where
  \<comment> \<open>\<open>data.get('coin')\<close> as a condition\<close>
  "has_coin d = (case dict_get (coin d) of None \<Rightarrow> False | Some c \<Rightarrow> truthy_str c)"

text \<open>
  One round of the loop over the signals. The state is the pair
  \<open>(matched_trades, used_results)\<close>. \<open>results[best_match]['data']\<close> is read at an index
  that the scan has returned, where the data are there (lemma \<open>scan_results_pick\<close>).
  Likewise \<open>signal_data['coin']\<close> is read in the trades only after the guard has found
  a non-empty text under that key.
\<close>

definition process_signal :: "config \<Rightarrow> item list \<Rightarrow> item \<Rightarrow> trade list \<times> nat set
    \<Rightarrow> trade list \<times> nat set" where
  "process_signal cfg results signal = (\<lambda>(matched_trades, used_results).
     case data signal of
       None \<Rightarrow> (matched_trades, used_results)
     | Some signal_data \<Rightarrow>
         if \<not> has_coin signal_data then (matched_trades, used_results)
         else
           (case scan_results (auto_match_threshold cfg) signal_data used_results
                   (List.enumerate 0 results) (None, 0) of
              (Some best_match, best_score) \<Rightarrow>
                (matched_trades @
                   [matched_trade signal signal_data (results ! best_match)
                      (the (data (results ! best_match))) best_score],
                 insert best_match used_results)
            | (None, best_score) \<Rightarrow>
                (matched_trades @ [signal_only_trade signal signal_data], used_results)))"

definition unmatched_result :: "nat set \<Rightarrow> nat \<times> item \<Rightarrow> trade list \<Rightarrow> trade list" where
  \<comment> \<open>one round of the loop that adds the results no signal has taken\<close>
  "unmatched_result used_results = (\<lambda>(i, result) matched_trades.
     if i \<notin> used_results then
       (case data result of
          None \<Rightarrow> matched_trades
        | Some result_data \<Rightarrow>
            if has_coin result_data
            then matched_trades @ [result_only_trade result result_data]
            else matched_trades)
     else matched_trades)"

text \<open>
  \<open>matched_trades.sort(key=lambda x: x.get('roi', 0), reverse=True)\<close>. The key \<open>roi\<close>
  is in every trade, so the key function returns what it holds, \<open>None\<close> included.
  A list of fewer than two elements is sorted without a comparison. In a longer list
  every element is compared with another one at least once, and comparing \<open>None\<close>
  with a number or with \<open>None\<close> raises \<open>TypeError\<close>. A descending sort keeps
  elements of equal key in their order.
\<close>

definition sort_by_roi :: "trade list \<Rightarrow> py_error + trade list" where
  "sort_by_roi trades =
     (if length trades < 2 then Inr trades
      else if list_ex (\<lambda>t. trade_roi t = None) trades then Inl TypeError
      else Inr (sort_key (\<lambda>t. - the (trade_roi t)) trades))"

definition collect_trades :: "config \<Rightarrow> item list \<Rightarrow> trade list" where
  \<comment> \<open>the \<open>try\<close> block of \<open>match_signals_to_results\<close> up to the sort\<close>
  "collect_trades cfg processed_data =
     (let signals = filter (\<lambda>d. type d = ''signal'') processed_data;
          results = filter (\<lambda>d. type d = ''result'') processed_data;
          (matched_trades, used_results) = fold (process_signal cfg results) signals ([], {})
      in fold (unmatched_result used_results) (List.enumerate 0 results) matched_trades)"

definition match_body :: "config \<Rightarrow> item list \<Rightarrow> py_error + trade list" where
  \<comment> \<open>the whole \<open>try\<close> block: the trades collected, then sorted\<close>
  "match_body cfg processed_data = sort_by_roi (collect_trades cfg processed_data)"

definition match_signals_to_results :: "config \<Rightarrow> item list \<Rightarrow> py_error + trade list" where
  \<comment> \<open>\<open>except Exception\<close> logs the error and returns the empty list\<close>
  "match_signals_to_results cfg processed_data =
     (case match_body cfg processed_data of
        Inl e \<Rightarrow> Inr []
      | Inr matched_trades \<Rightarrow> Inr matched_trades)"

definition default_config :: config where
  "default_config = \<lparr> auto_match_threshold = 0.8 \<rparr>"

subsection \<open>References to results\<close>

text \<open>
  A trade refers to a result by the path in its \<open>result_image\<close>. The references of a
  list of trades, in order:
\<close>

definition result_refs :: "trade list \<Rightarrow> string list" where
  "result_refs trades = List.map_filter result_image trades"

subsection \<open>Coin detection\<close>

text \<open>
  \<open>detect_coin_name\<close> reads the text and the confidence of each region. The texts are
  ASCII: the recogniser is restricted to capitals, digits and a few signs.
\<close>

record region =
  region_text :: string
  region_confidence :: real

definition upper_char :: "char \<Rightarrow> char" where
  "upper_char c =
     (case map_of (zip ''abcdefghijklmnopqrstuvwxyz'' ''ABCDEFGHIJKLMNOPQRSTUVWXYZ'') c of
        None \<Rightarrow> c
      | Some u \<Rightarrow> u)"

definition upper :: "string \<Rightarrow> string" where
  \<comment> \<open>\<open>str.upper\<close>\<close>
  "upper s = map upper_char s"

definition contains :: "string \<Rightarrow> string \<Rightarrow> bool" where
  \<comment> \<open>\<open>coin in text\<close>: the coin symbol occurs in the text as a block\<close>
  "contains text symbol =
     list_ex (\<lambda>i. take (length symbol) (drop i text) = symbol) [0..<Suc (length text)]"

text \<open>
  \<open>re.findall(r'\b[A-Z]{2,8}\b', text)\<close>. A match starts and ends at a word boundary
  and consists of capitals, all of them word characters, so it is a whole maximal run of
  word characters (letters, digits, underscore); the matches are the runs that consist of
  two to eight capitals, from left to right.
\<close>

definition is_capital :: "char \<Rightarrow> bool" where
  "is_capital c = (c \<in> set ''ABCDEFGHIJKLMNOPQRSTUVWXYZ'')"

definition is_word_char :: "char \<Rightarrow> bool" where
  "is_word_char c =
     (c \<in> set ''ABCDEFGHIJKLMNOPQRSTUVWXYZabcdefghijklmnopqrstuvwxyz0123456789_'')"

fun word_runs :: "string \<Rightarrow> string \<Rightarrow> string list" where
  \<comment> \<open>the first argument is the run being read\<close>
  "word_runs run [] = (if run = [] then [] else [run])"
| "word_runs run (c # cs) =
     (if is_word_char c then word_runs (run @ [c]) cs
      else (if run = [] then [] else [run]) @ word_runs [] cs)"

definition findall_coin :: "string \<Rightarrow> string list" where
  "findall_coin text =
     filter (\<lambda>w. 2 \<le> length w \<and> length w \<le> 8 \<and> list_all is_capital w) (word_runs [] text)"

text \<open>
  The two inner loops over the known coins; the state of both is the pair
  \<open>(best_match, best_confidence)\<close>.
\<close>

definition direct_match :: "string \<Rightarrow> real \<Rightarrow> string \<Rightarrow> string \<times> real \<Rightarrow> string \<times> real" where
  "direct_match text region_conf symbol = (\<lambda>(best_match, best_confidence).
     if contains text symbol then
       (let confidence = region_conf
        in if confidence > best_confidence then (symbol, confidence)
           else (best_match, best_confidence))
     else (best_match, best_confidence))"

definition similar_match :: "string \<Rightarrow> real \<Rightarrow> string \<Rightarrow> string \<times> real \<Rightarrow> string \<times> real" where
  "similar_match match region_conf symbol = (\<lambda>(best_match, best_confidence).
     let similarity = ratio match symbol
     in if similarity > 0.8 then
          (let confidence = region_conf * similarity
           in if confidence > best_confidence then (symbol, confidence)
              else (best_match, best_confidence))
        else (best_match, best_confidence))"

definition detect_in_region :: "string list \<Rightarrow> region \<Rightarrow> string \<times> real \<Rightarrow> string \<times> real" where
  \<comment> \<open>one round of the loop over the regions\<close>
  "detect_in_region known_coins region best =
     (let text = upper (region_text region);
          best = fold (direct_match text (region_confidence region)) known_coins best
      in fold (\<lambda>match best.
                 if length match \<ge> 2
                 then fold (similar_match match (region_confidence region)) known_coins best
                 else best)
              (findall_coin text) best)"

definition detect_coin_name :: "string list \<Rightarrow> region list \<Rightarrow> string \<times> real" where
  "detect_coin_name known_coins text_regions =
     fold (detect_in_region known_coins) text_regions ([], 0)"

definition default_coins :: "string list" where
  "default_coins =
     [''BTC'', ''ETH'', ''BNB'', ''ADA'', ''DOT'', ''XRP'', ''LINK'', ''LTC'', ''BCH'',
      ''UNI'', ''THETA'', ''XLM'', ''VET'', ''FIL'', ''TRX'', ''EOS'', ''ATOM'', ''NEO'',
      ''AVAX'', ''LUNA'', ''SOL'', ''MATIC'', ''ALGO'', ''ICP'', ''EGLD'', ''RUNE'',
      ''EPIC'', ''FLOKI'', ''HBAR'', ''COOK'', ''TAO'', ''ZORA'', ''DOGE'', ''SHIB'']"

subsection \<open>Sample inputs\<close>

text \<open>A signal and a result of the same coin, ten minutes apart, at prices 1 and 0.9.\<close>

definition near_signal :: image_data where
  "near_signal = \<lparr> coin = Val ''BTC'', entry_price = Val 1, exit_price = Missing,
     roi = PyNone, status = Val ''neutral'', timestamp = Val (Iso_text (Naive 0)) \<rparr>"

definition near_result :: image_data where
  "near_result = \<lparr> coin = Val ''BTC'', entry_price = Val 0.9, exit_price = Missing,
     roi = Val 12, status = Val ''win'', timestamp = Val (Iso_text (Naive 600)) \<rparr>"

text \<open>A result of the same coin, ten minutes after the signal, at the signal's price 1.\<close>

definition same_price_result :: image_data where
  "same_price_result = \<lparr> coin = Val ''BTC'', entry_price = Val 1, exit_price = Missing,
     roi = Val 12, status = Val ''win'', timestamp = Val (Iso_text (Naive 600)) \<rparr>"

text \<open>
  One signal and three results of its coin: the first at a price far from the signal's, the
  second and the third alike and close to it.
\<close>

definition tie_signal :: item where
  "tie_signal = \<lparr> type = ''signal'', path = ''signal_1.png'', data = Some near_signal \<rparr>"

definition tie_results :: "item list" where
  "tie_results =
     [\<lparr> type = ''result'', path = ''result_1.png'', data = Some (near_result\<lparr>entry_price := Val 2\<rparr>) \<rparr>,
      \<lparr> type = ''result'', path = ''result_2.png'', data = Some near_result \<rparr>,
      \<lparr> type = ''result'', path = ''result_3.png'', data = Some near_result \<rparr>]"

text \<open>
  A batch for a low threshold: the signal of coin BTC and a result of coin BCH at the
  same price ten minutes later, matched at threshold 0.5.
\<close>

definition lenient_config :: config where
  "lenient_config = \<lparr> auto_match_threshold = 0.5 \<rparr>"

definition similar_result :: item where
  "similar_result = \<lparr> type = ''result'', path = ''result_1.png'',
     data = Some (near_result\<lparr>coin := Val ''BCH'', entry_price := Val 1\<rparr>) \<rparr>"

text \<open>
  A batch of two signals and three results: the signal of coin BTC takes the second
  result, the signal of coin ETH finds none, the other two results stay alone.
\<close>

definition lone_data :: image_data where
  "lone_data = \<lparr> coin = Val ''ETH'', entry_price = Missing, exit_price = Missing,
     roi = Val 3, status = Missing, timestamp = Missing \<rparr>"

definition lone_signal :: item where
  "lone_signal = \<lparr> type = ''signal'', path = ''signal_2.png'', data = Some lone_data \<rparr>"

definition mixed_batch :: "item list" where
  "mixed_batch = [tie_signal, lone_signal] @ tie_results"

text \<open>
  A signal that carries an exit price, a roi and a status, and a result of the same coin
  that carries none of the three.
\<close>

definition full_data :: image_data where
  "full_data = \<lparr> coin = Val ''BTC'', entry_price = Val 1, exit_price = Val 2,
     roi = Val 5, status = Val ''win'', timestamp = Val (Iso_text (Naive 0)) \<rparr>"

definition bare_data :: image_data where
  "bare_data = \<lparr> coin = Val ''BTC'', entry_price = Missing, exit_price = Missing,
     roi = Missing, status = Missing, timestamp = Val (Iso_text (Naive 600)) \<rparr>"

definition full_signal :: item where
  "full_signal = \<lparr> type = ''signal'', path = ''signal_1.png'', data = Some full_data \<rparr>"

definition bare_result :: item where
  "bare_result = \<lparr> type = ''result'', path = ''result_1.png'', data = Some bare_data \<rparr>"

text \<open>
  A batch whose scores do not depend on rounding: the signal of coin BTC and two results
  of its coin at its price, and the signal of coin ETH.
\<close>

definition paid_results :: "item list" where
  "paid_results =
     [\<lparr> type = ''result'', path = ''result_1.png'', data = Some same_price_result \<rparr>,
      \<lparr> type = ''result'', path = ''result_2.png'', data = Some same_price_result \<rparr>]"

definition plain_batch :: "item list" where
  "plain_batch = [full_signal, lone_signal] @ paid_results"

text \<open>A signal and a result of the same coin at negative prices, without timestamps.\<close>

definition minus_one_data :: image_data where
  "minus_one_data = \<lparr> coin = Val ''BTC'', entry_price = Val (- 1), exit_price = Missing,
     roi = Val 5, status = Val ''win'', timestamp = Missing \<rparr>"

definition minus_half_data :: image_data where
  "minus_half_data = \<lparr> coin = Val ''BTC'', entry_price = Val (- 0.5), exit_price = Missing,
     roi = Val 7, status = Val ''win'', timestamp = Missing \<rparr>"

definition negative_signal :: item where
  "negative_signal = \<lparr> type = ''signal'', path = ''signal_1.png'', data = Some minus_one_data \<rparr>"

definition negative_result :: item where
  "negative_result = \<lparr> type = ''result'', path = ''result_1.png'', data = Some minus_half_data \<rparr>"

text \<open>
  A result without a recognised coin, ten minutes after the signal: \<open>detect_coin_name\<close>
  returns the empty text when it finds no coin, and \<open>analyze_image\<close> stamps every
  record with the time of the analysis.
\<close>

definition coinless_data :: image_data where
  "coinless_data = \<lparr> coin = Val [], entry_price = Val 1, exit_price = Missing,
     roi = Val 40, status = Val ''win'', timestamp = Val (Iso_text (Naive 600)) \<rparr>"

definition coinless_result :: item where
  "coinless_result = \<lparr> type = ''result'', path = ''result_1.png'', data = Some coinless_data \<rparr>"

text \<open>Two signals of different coins, the first with a roi, the second with none.\<close>

definition unrated_data :: image_data where
  "unrated_data = \<lparr> coin = Val ''ETH'', entry_price = Val 3, exit_price = Missing,
     roi = PyNone, status = Val ''neutral'', timestamp = Val (Iso_text (Naive 60)) \<rparr>"

definition unrated_signal :: item where
  "unrated_signal = \<lparr> type = ''signal'', path = ''signal_2.png'', data = Some unrated_data \<rparr>"

text \<open>Two misread texts of the coin THETA: one letter wrong, and one letter lost.\<close>

definition wrong_letter :: region where
  "wrong_letter = \<lparr> region_text = ''THETX'', region_confidence = 0.9 \<rparr>"

definition lost_letter :: region where
  "lost_letter = \<lparr> region_text = ''THTA'', region_confidence = 0.9 \<rparr>"

section \<open>Properties\<close>

subsection \<open>The similarity ratio lies between 0 and 1\<close>

lemma matching_size_le: "matching_size a b \<le> length a \<and> matching_size a b \<le> length b"
proof (induction a b rule: matching_size.induct)
  case (1 a b)
  obtain i j k where flm: "find_longest_match a b = (i, j, k)"
    by (cases "find_longest_match a b") auto
  note bounds = find_longest_match_bounds [OF flm]
  show ?case
  proof (cases "k = 0")
    case True
    then have "matching_size a b = 0"
      by (subst matching_size.simps) (simp add: flm)
    then show ?thesis by simp
  next
    case False
    have left: "matching_size (take i a) (take j b) \<le> i \<and> matching_size (take i a) (take j b) \<le> j"
      using "1.IH"(1) [OF flm [symmetric] refl False] bounds by simp
    have right: "matching_size (drop (i + k) a) (drop (j + k) b) \<le> length a - (i + k)
        \<and> matching_size (drop (i + k) a) (drop (j + k) b) \<le> length b - (j + k)"
      using "1.IH"(2) [OF flm [symmetric] refl False] by simp
    have eq: "matching_size a b = matching_size (take i a) (take j b) + k
        + matching_size (drop (i + k) a) (drop (j + k) b)"
      using False by (subst matching_size.simps) (simp add: flm)
    show ?thesis
      using left right bounds unfolding eq by linarith
  qed
qed

lemma ratio_bounds: "0 \<le> ratio a b \<and> ratio a b \<le> 1"
proof (cases "length a + length b = 0")
  case True
  then show ?thesis by (simp add: ratio_def)
next
  case False
  have "2 * matching_size a b \<le> length a + length b"
    using matching_size_le [of a b] by linarith
  then have "2 * real (matching_size a b) \<le> real (length a + length b)"
    by (metis of_nat_le_iff of_nat_mult of_nat_numeral)
  moreover have "0 < real (length a + length b)"
    using False by (simp only: of_nat_0_less_iff)
  ultimately have "2 * real (matching_size a b) / real (length a + length b) \<le> 1"
    by (simp only: divide_le_eq_1_pos)
  moreover have "0 \<le> 2 * real (matching_size a b) / real (length a + length b)"
    by simp
  ultimately show ?thesis
    using False by (simp only: ratio_def if_False)
qed

subsection \<open>The score of a pair that agrees on coin, time and price\<close>

text \<open>
  Claim C1, as amended. When signal and result carry the same coin, timestamps at most
  one hour apart and the same price, not zero, on both sides, so that the price ratio is
  exactly 1, every factor earns its full weight and the score is exactly 1. The two
  running sums then go through the same additions, so the quotient is 1 whatever the
  rounding of the sums. A price ratio above 0.8 alone does not give the score 1.
\<close>

theorem score_when_all_factors_agree:
  assumes "dict_get (coin signal_data) = Some c" and "dict_get (coin result_data) = Some c"
    and "c \<noteq> []"
    and "dict_get (timestamp signal_data) = Some signal_time"
    and "dict_get (timestamp result_data) = Some result_time"
    and "time_diff signal_time result_time = Inr d" and "d \<le> 3600"
    and "dict_get (entry_price signal_data) = Some p" and "p \<noteq> 0"
    and "py_or (dict_get (entry_price result_data)) (dict_get (exit_price result_data)) = Some p"
  shows "calculate_match_score signal_data result_data = 1"
proof -
  have t1: "truthy_time signal_time" "truthy_time result_time"
    using assms(6) by (auto simp: time_diff_def truthy_time_def split: sum.splits)
  have c: "coin_agreement signal_data result_data (0, 0) = (0.6, 0.6)"
    using assms(1-3) by (simp add: coin_agreement_def truthy_str_def)
  have t: "timestamp_proximity signal_data result_data (0.6, 0.6) = (0.8, 0.8)"
    using assms(4-7) t1 by (simp add: timestamp_proximity_def)
  have "min p p / max p p = 1"
    using assms(9) by simp
  then have p: "price_consistency signal_data result_data (0.8, 0.8) = (1, 1)"
    using assms(8-10) by (simp add: price_consistency_def truthy_num_def Let_def)
  show ?thesis
    unfolding calculate_match_score_def c t p by simp
qed

theorem score_when_all_factors_agree_witness:
  "dict_get (entry_price near_signal) = Some 1
   \<and> py_or (dict_get (entry_price same_price_result)) (dict_get (exit_price same_price_result))
       = Some 1
   \<and> time_diff (Iso_text (Naive 0)) (Iso_text (Naive 600)) = Inr 600
   \<and> calculate_match_score near_signal same_price_result = 1"
proof -
  have d: "time_diff (Iso_text (Naive 0)) (Iso_text (Naive 600)) = Inr 600"
    by (simp add: time_diff_def)
  have p: "dict_get (entry_price near_signal) = Some 1"
    by (simp add: near_signal_def)
  have q: "py_or (dict_get (entry_price same_price_result))
      (dict_get (exit_price same_price_result)) = Some 1"
    by (simp add: same_price_result_def py_or_def truthy_num_def)
  have "calculate_match_score near_signal same_price_result = 1"
    by (rule score_when_all_factors_agree [where c = "''BTC''" and d = 600 and p = 1
          and signal_time = "Iso_text (Naive 0)" and result_time = "Iso_text (Naive 600)"])
       (simp_all add: near_signal_def same_price_result_def d py_or_def truthy_num_def)
  then show ?thesis
    using d p q by (intro conjI)
qed

text \<open>
  Claim C1 as stated (the score is exactly 1.0) fails for the pair at prices 1 and 0.9:
  same coin, ten minutes apart, price ratio 0.9 above 0.8, and the score is not 1.
\<close>

theorem score_not_one_counterexample:
  "dict_get (coin near_signal) = Some ''BTC'' \<and> dict_get (coin near_result) = Some ''BTC''
   \<and> time_diff (Iso_text (Naive 0)) (Iso_text (Naive 600)) = Inr 600
   \<and> dict_get (timestamp near_signal) = Some (Iso_text (Naive 0))
   \<and> dict_get (timestamp near_result) = Some (Iso_text (Naive 600))
   \<and> dict_get (entry_price near_signal) = Some 1
   \<and> py_or (dict_get (entry_price near_result)) (dict_get (exit_price near_result)) = Some 0.9
   \<and> min (1::real) 0.9 / max 1 0.9 > 0.8
   \<and> calculate_match_score near_signal near_result \<noteq> 1"
  by (simp add: near_signal_def near_result_def time_diff_def py_or_def truthy_num_def
      calculate_match_score_def coin_agreement_def timestamp_proximity_def price_consistency_def
      truthy_str_def truthy_time_def Let_def)

subsection \<open>The scan of the results\<close>

lemma scan_results_mono:
  "scan_results thr sd used ps (bm, bs) = (bm', bs') \<Longrightarrow> bs \<le> bs'"
proof (induction ps arbitrary: bm bs)
  case Nil
  then show ?case by simp
next
  case (Cons p ps)
  obtain i r where p: "p = (i, r)" by (cases p) auto
  show ?case
    using Cons.prems Cons.IH
    by (fastforce simp: p Let_def split: if_splits option.splits)
qed

text \<open>What the scan returns: the state it started from, or a candidate it has seen.\<close>

lemma scan_results_pick:
  assumes "scan_results thr sd used (List.enumerate n xs) (bm, bs) = (bm', bs')"
  shows "(bm' = bm \<and> bs' = bs) \<or>
     (\<exists>k < length xs. \<exists>rd. bm' = Some (n + k) \<and> n + k \<notin> used \<and> data (xs ! k) = Some rd
        \<and> bs' = calculate_match_score sd rd \<and> bs' \<ge> thr \<and> bs' > bs
        \<and> (\<forall>k' < k. \<forall>rd'. n + k' \<notin> used \<longrightarrow> data (xs ! k') = Some rd'
              \<longrightarrow> calculate_match_score sd rd' \<ge> thr \<longrightarrow> calculate_match_score sd rd' < bs'))"
  using assms
proof (induction xs arbitrary: n bm bs)
  case Nil
  then show ?case by simp
next
  case (Cons x xs)
  let ?P = "\<lambda>n xs bs k rd. n + k \<notin> used \<and> data (xs ! k) = Some rd
        \<and> bs' = calculate_match_score sd rd \<and> bs' \<ge> thr \<and> bs' > bs
        \<and> (\<forall>k' < k. \<forall>rd'. n + k' \<notin> used \<longrightarrow> data (xs ! k') = Some rd'
              \<longrightarrow> calculate_match_score sd rd' \<ge> thr \<longrightarrow> calculate_match_score sd rd' < bs')"
  have shift: "\<exists>k < length (x # xs). \<exists>rd. bm' = Some (n + k) \<and> ?P n (x # xs) bs k rd"
    if tail: "\<exists>k < length xs. \<exists>rd. bm' = Some (Suc n + k) \<and> ?P (Suc n) xs b k rd"
      and b: "bs \<le> b"
      and head: "\<forall>rd'. n \<notin> used \<longrightarrow> data x = Some rd' \<longrightarrow> calculate_match_score sd rd' \<ge> thr
          \<longrightarrow> calculate_match_score sd rd' \<le> b"
    for b
  proof -
    from tail obtain k rd where k: "k < length xs" "bm' = Some (Suc n + k)" "?P (Suc n) xs b k rd"
      by blast
    have "?P n (x # xs) bs (Suc k) rd"
    proof (intro conjI allI impI)
      fix k' rd'
      assume a: "k' < Suc k" "n + k' \<notin> used" "data ((x # xs) ! k') = Some rd'"
        "thr \<le> calculate_match_score sd rd'"
      show "calculate_match_score sd rd' < bs'"
      proof (cases k')
        case 0
        then have "calculate_match_score sd rd' \<le> b" using a head by simp
        then show ?thesis using k(3) by simp
      next
        case (Suc j)
        then have "j < k" "Suc n + j \<notin> used" "data (xs ! j) = Some rd'"
          using a by simp_all
        then show ?thesis using a(4) k(3) by blast
      qed
    qed (use k b in auto)
    then show ?thesis using k(1,2) by (intro exI [of _ "Suc k"]) auto
  qed
  show ?case
  proof (cases "n \<in> used")
    case True
    then have "scan_results thr sd used (List.enumerate (Suc n) xs) (bm, bs) = (bm', bs')"
      using Cons.prems by simp
    from Cons.IH [OF this] show ?thesis
    proof
      assume "bm' = bm \<and> bs' = bs"
      then show ?thesis by simp
    next
      assume "\<exists>k < length xs. \<exists>rd. bm' = Some (Suc n + k) \<and> ?P (Suc n) xs bs k rd"
      then show ?thesis using shift [of bs] True by simp
    qed
  next
    case False
    show ?thesis
    proof (cases "data x")
      case None
      then have "scan_results thr sd used (List.enumerate (Suc n) xs) (bm, bs) = (bm', bs')"
        using Cons.prems False by simp
      from Cons.IH [OF this] show ?thesis
      proof
        assume "bm' = bm \<and> bs' = bs"
        then show ?thesis by simp
      next
        assume "\<exists>k < length xs. \<exists>rd. bm' = Some (Suc n + k) \<and> ?P (Suc n) xs bs k rd"
        then show ?thesis using shift [of bs] None by simp
      qed
    next
      case (Some rd0)
      let ?s = "calculate_match_score sd rd0"
      show ?thesis
      proof (cases "?s > bs \<and> ?s \<ge> thr")
        case take: True
        then have "scan_results thr sd used (List.enumerate (Suc n) xs) (Some n, ?s) = (bm', bs')"
          using Cons.prems False Some by (simp add: Let_def)
        from Cons.IH [OF this] show ?thesis
        proof
          assume "bm' = Some n \<and> bs' = ?s"
          then have "bm' = Some (n + 0) \<and> ?P n (x # xs) bs 0 rd0"
            using False Some take by simp
          then show ?thesis by (intro disjI2 exI [of _ 0]) auto
        next
          assume "\<exists>k < length xs. \<exists>rd. bm' = Some (Suc n + k) \<and> ?P (Suc n) xs ?s k rd"
          then show ?thesis using shift [of ?s] take Some by simp
        qed
      next
        case skip: False
        then have "scan_results thr sd used (List.enumerate (Suc n) xs) (bm, bs) = (bm', bs')"
          using Cons.prems False Some by (auto simp: Let_def)
        from Cons.IH [OF this] show ?thesis
        proof
          assume "bm' = bm \<and> bs' = bs"
          then show ?thesis by simp
        next
          assume "\<exists>k < length xs. \<exists>rd. bm' = Some (Suc n + k) \<and> ?P (Suc n) xs bs k rd"
          then show ?thesis using shift [of bs] skip Some by auto
        qed
      qed
    qed
  qed
qed

lemma scan_results_upper:
  assumes "scan_results thr sd used (List.enumerate n xs) (bm, bs) = (bm', bs')"
    and "k < length xs" and "n + k \<notin> used" and "data (xs ! k) = Some rd"
    and "calculate_match_score sd rd \<ge> thr"
  shows "calculate_match_score sd rd \<le> bs'"
  using assms
proof (induction xs arbitrary: n k bm bs)
  case Nil
  then show ?case by simp
next
  case (Cons x xs)
  show ?case
  proof (cases k)
    case 0
    let ?s = "calculate_match_score sd rd"
    show ?thesis
    proof (cases "?s > bs")
      case True
      then have "scan_results thr sd used (List.enumerate (Suc n) xs) (Some n, ?s) = (bm', bs')"
        using Cons.prems 0 by (simp add: Let_def)
      then show ?thesis by (rule scan_results_mono)
    next
      case False
      then have "scan_results thr sd used (List.enumerate (Suc n) xs) (bm, bs) = (bm', bs')"
        using Cons.prems 0 by (simp add: Let_def)
      then have "bs \<le> bs'" by (rule scan_results_mono)
      then show ?thesis using False by simp
    qed
  next
    case (Suc j)
    obtain bm1 bs1 where rest: "scan_results thr sd used (List.enumerate (Suc n) xs) (bm1, bs1) = (bm', bs')"
      using Cons.prems(1) by (auto simp: Let_def split: if_splits option.splits)
    show ?thesis
      using Cons.IH [OF rest, of j] Cons.prems(2-5) Suc by simp
  qed
qed

lemma process_signal_cases:
  assumes "process_signal cfg results signal (mt, used) = (mt', used')"
  shows "(mt' = mt \<and> used' = used
          \<and> (data signal = None \<or> (\<exists>sd. data signal = Some sd \<and> \<not> has_coin sd)))
     \<or> (\<exists>sd. data signal = Some sd \<and> has_coin sd
          \<and> mt' = mt @ [signal_only_trade signal sd] \<and> used' = used
          \<and> scan_results (auto_match_threshold cfg) sd used (List.enumerate 0 results) (None, 0)
              = (None, 0))
     \<or> (\<exists>sd i rd. data signal = Some sd \<and> has_coin sd \<and> i < length results \<and> i \<notin> used
          \<and> data (results ! i) = Some rd
          \<and> mt' = mt @ [matched_trade signal sd (results ! i) rd (calculate_match_score sd rd)]
          \<and> used' = insert i used
          \<and> scan_results (auto_match_threshold cfg) sd used (List.enumerate 0 results) (None, 0)
              = (Some i, calculate_match_score sd rd)
          \<and> auto_match_threshold cfg \<le> calculate_match_score sd rd
          \<and> 0 < calculate_match_score sd rd)"
proof (cases "data signal")
  case None
  then show ?thesis using assms by (simp add: process_signal_def)
next
  case (Some sd)
  show ?thesis
  proof (cases "has_coin sd")
    case False
    then show ?thesis using assms Some by (simp add: process_signal_def)
  next
    case True
    obtain bm bs where scan: "scan_results (auto_match_threshold cfg) sd used
        (List.enumerate 0 results) (None, 0) = (bm, bs)"
      by (cases "scan_results (auto_match_threshold cfg) sd used (List.enumerate 0 results) (None, 0)")
    from scan_results_pick [OF scan]
    consider (none) "bm = None" "bs = 0"
      | (some) k rd where "k < length results" "bm = Some k" "k \<notin> used" "data (results ! k) = Some rd"
          "bs = calculate_match_score sd rd" "bs \<ge> auto_match_threshold cfg" "bs > 0"
      by auto
    then show ?thesis
    proof cases
      case none
      then show ?thesis
        using assms Some True scan by (simp add: process_signal_def)
    next
      case some
      then have "mt' = mt @ [matched_trade signal sd (results ! k) rd (calculate_match_score sd rd)]"
        and "used' = insert k used"
        using assms Some True scan by (simp_all add: process_signal_def)
      then show ?thesis
        using some Some True scan by (intro disjI2) auto
    qed
  qed
qed

subsection \<open>The greedy choice of a result\<close>

text \<open>
  Claim C5. For a signal with a coin, the round of the signal loop consumes no result when
  no candidate (a result not yet consumed, with data) has a score that is positive and
  meets the threshold. Otherwise it consumes exactly one candidate \<open>i\<close>, whose score is
  positive and meets the threshold; every candidate meeting the threshold scores at most
  as much, and every such candidate of a lower index scores strictly less. So among
  several candidates of the same top score, the one of lowest index is consumed.
\<close>

theorem first_best_result_is_consumed:
  assumes "data signal = Some sd" and "has_coin sd"
    and "process_signal cfg results signal (mt, used) = (mt', used')"
  shows "(used' = used
          \<and> (\<forall>j < length results. \<forall>rd. j \<notin> used \<longrightarrow> data (results ! j) = Some rd
                \<longrightarrow> \<not> (0 < calculate_match_score sd rd
                        \<and> auto_match_threshold cfg \<le> calculate_match_score sd rd)))
     \<or> (\<exists>i < length results. \<exists>rd. used' = insert i used \<and> i \<notin> used
          \<and> data (results ! i) = Some rd
          \<and> 0 < calculate_match_score sd rd
          \<and> auto_match_threshold cfg \<le> calculate_match_score sd rd
          \<and> (\<forall>j < length results. \<forall>rd'. j \<notin> used \<longrightarrow> data (results ! j) = Some rd'
                \<longrightarrow> auto_match_threshold cfg \<le> calculate_match_score sd rd'
                \<longrightarrow> calculate_match_score sd rd' \<le> calculate_match_score sd rd
                    \<and> (j < i \<longrightarrow> calculate_match_score sd rd' < calculate_match_score sd rd)))"
proof -
  let ?thr = "auto_match_threshold cfg"
  from process_signal_cases [OF assms(3)] assms(1,2)
  consider (alone) "used' = used"
      "scan_results ?thr sd used (List.enumerate 0 results) (None, 0) = (None, 0)"
    | (matched) i rd where "i < length results" "i \<notin> used" "data (results ! i) = Some rd"
      "used' = insert i used"
      "scan_results ?thr sd used (List.enumerate 0 results) (None, 0)
         = (Some i, calculate_match_score sd rd)"
      "?thr \<le> calculate_match_score sd rd" "0 < calculate_match_score sd rd"
    by auto
  then show ?thesis
  proof cases
    case alone
    have "\<not> (0 < calculate_match_score sd rd \<and> ?thr \<le> calculate_match_score sd rd)"
      if "j < length results" "j \<notin> used" "data (results ! j) = Some rd" for j rd
      using scan_results_upper [OF alone(2), of j rd] that by auto
    then show ?thesis using alone(1) by blast
  next
    case matched
    have upper: "calculate_match_score sd rd' \<le> calculate_match_score sd rd"
      if "j < length results" "j \<notin> used" "data (results ! j) = Some rd'"
        "?thr \<le> calculate_match_score sd rd'" for j rd'
      using scan_results_upper [OF matched(5), of j rd'] that by simp
    have first: "calculate_match_score sd rd' < calculate_match_score sd rd"
      if "j < i" "j \<notin> used" "data (results ! j) = Some rd'"
        "?thr \<le> calculate_match_score sd rd'" for j rd'
      using scan_results_pick [OF matched(5)] that by auto
    show ?thesis
      using matched(1-4,6,7) upper first by (intro disjI2) blast
  qed
qed

lemma tie_scores:
  "calculate_match_score near_signal (near_result\<lparr>entry_price := Val 2\<rparr>) = 0.8"
  "calculate_match_score near_signal near_result = 0.98"
  by (simp_all add: near_signal_def near_result_def time_diff_def py_or_def truthy_num_def
      calculate_match_score_def coin_agreement_def timestamp_proximity_def price_consistency_def
      truthy_str_def truthy_time_def Let_def)

theorem first_best_result_is_consumed_witness:
  "process_signal default_config tie_results tie_signal ([], {})
     = ([matched_trade tie_signal near_signal (tie_results ! 1) near_result 0.98], {1})
   \<and> calculate_match_score near_signal near_result = 0.98"
proof -
  have d: "data tie_signal = Some near_signal"
    by (simp add: tie_signal_def)
  have c: "has_coin near_signal"
    by (simp add: has_coin_def near_signal_def truthy_str_def)
  have run: "process_signal default_config tie_results tie_signal ([], {})
     = ([matched_trade tie_signal near_signal (tie_results ! 1) near_result 0.98], {1})"
    by (simp add: process_signal_def d c tie_results_def tie_scores default_config_def
        enumerate_eq_zip Let_def)
  from first_best_result_is_consumed [OF d c run] tie_scores show ?thesis
    using run by simp
qed

subsection \<open>Where the collected trades come from\<close>

lemma signal_loop_trades:
  assumes "fold (process_signal cfg results) signals (mt, used) = (mt', used')"
    and "t \<in> set mt'"
  shows "t \<in> set mt \<or>
     (\<exists>s \<in> set signals. \<exists>sd. data s = Some sd \<and> has_coin sd \<and>
        (t = signal_only_trade s sd \<or>
         (\<exists>r \<in> set results. \<exists>rd. data r = Some rd
            \<and> t = matched_trade s sd r rd (calculate_match_score sd rd)
            \<and> auto_match_threshold cfg \<le> calculate_match_score sd rd
            \<and> 0 < calculate_match_score sd rd)))"
  using assms
proof (induction signals arbitrary: mt used)
  case Nil
  then show ?case by simp
next
  case (Cons s signals)
  obtain mt1 used1 where step: "process_signal cfg results s (mt, used) = (mt1, used1)"
    by (cases "process_signal cfg results s (mt, used)")
  then have rest: "fold (process_signal cfg results) signals (mt1, used1) = (mt', used')"
    using Cons.prems(1) by simp
  from Cons.IH [OF rest Cons.prems(2)] show ?case
  proof
    assume t: "t \<in> set mt1"
    from process_signal_cases [OF step]
    consider (same) "mt1 = mt"
      | (alone) sd where "data s = Some sd" "has_coin sd" "mt1 = mt @ [signal_only_trade s sd]"
      | (matched) sd i rd where "data s = Some sd" "has_coin sd" "i < length results"
          "data (results ! i) = Some rd"
          "mt1 = mt @ [matched_trade s sd (results ! i) rd (calculate_match_score sd rd)]"
          "auto_match_threshold cfg \<le> calculate_match_score sd rd"
          "0 < calculate_match_score sd rd"
      by blast
    then show ?thesis
    proof cases
      case same
      then show ?thesis using t by simp
    next
      case alone
      then show ?thesis using t by auto
    next
      case matched
      have "results ! i \<in> set results" using matched(3) by simp
      then show ?thesis using t matched by auto
    qed
  next
    assume "\<exists>s \<in> set signals. \<exists>sd. data s = Some sd \<and> has_coin sd \<and>
        (t = signal_only_trade s sd \<or>
         (\<exists>r \<in> set results. \<exists>rd. data r = Some rd
            \<and> t = matched_trade s sd r rd (calculate_match_score sd rd)
            \<and> auto_match_threshold cfg \<le> calculate_match_score sd rd
            \<and> 0 < calculate_match_score sd rd))"
    then show ?thesis by auto
  qed
qed

lemma unmatched_fold_set:
  assumes "t \<in> set (fold (unmatched_result used) ps mt)"
  shows "t \<in> set mt \<or>
     (\<exists>i r rd. (i, r) \<in> set ps \<and> i \<notin> used \<and> data r = Some rd \<and> has_coin rd
        \<and> t = result_only_trade r rd)"
  using assms
proof (induction ps arbitrary: mt)
  case Nil
  then show ?case by simp
next
  case (Cons p ps)
  obtain i r where p: "p = (i, r)" by (cases p)
  have "t \<in> set (fold (unmatched_result used) ps (unmatched_result used (i, r) mt))"
    using Cons.prems by (simp add: p)
  from Cons.IH [OF this] show ?case
  proof
    assume "t \<in> set (unmatched_result used (i, r) mt)"
    then have "t \<in> set mt \<or> (i \<notin> used \<and> (\<exists>rd. data r = Some rd \<and> has_coin rd
        \<and> t = result_only_trade r rd))"
      by (auto simp: unmatched_result_def split: if_splits option.splits)
    then show ?thesis using p by auto
  next
    assume "\<exists>i r rd. (i, r) \<in> set ps \<and> i \<notin> used \<and> data r = Some rd \<and> has_coin rd
        \<and> t = result_only_trade r rd"
    then show ?thesis by auto
  qed
qed

lemma enumerate_member: "(i, r) \<in> set (List.enumerate n xs) \<Longrightarrow> r \<in> set xs"
  by (induction xs arbitrary: n) auto

lemma collect_trades_cases:
  assumes "t \<in> set (collect_trades cfg processed_data)"
  shows "(\<exists>s sd. s \<in> set processed_data \<and> type s = ''signal'' \<and> data s = Some sd \<and> has_coin sd
            \<and> t = signal_only_trade s sd)
     \<or> (\<exists>s sd r rd. s \<in> set processed_data \<and> type s = ''signal'' \<and> data s = Some sd
            \<and> has_coin sd \<and> r \<in> set processed_data \<and> type r = ''result'' \<and> data r = Some rd
            \<and> t = matched_trade s sd r rd (calculate_match_score sd rd)
            \<and> auto_match_threshold cfg \<le> calculate_match_score sd rd
            \<and> 0 < calculate_match_score sd rd)
     \<or> (\<exists>r rd. r \<in> set processed_data \<and> type r = ''result'' \<and> data r = Some rd \<and> has_coin rd
            \<and> t = result_only_trade r rd)"
proof -
  let ?signals = "filter (\<lambda>d. type d = ''signal'') processed_data"
  let ?results = "filter (\<lambda>d. type d = ''result'') processed_data"
  obtain mt used where loop: "fold (process_signal cfg ?results) ?signals ([], {}) = (mt, used)"
    by (cases "fold (process_signal cfg ?results) ?signals ([], {})")
  have all: "collect_trades cfg processed_data =
      fold (unmatched_result used) (List.enumerate 0 ?results) mt"
    by (simp add: collect_trades_def loop Let_def)
  from assms have "t \<in> set (fold (unmatched_result used) (List.enumerate 0 ?results) mt)"
    by (simp only: all)
  from unmatched_fold_set [OF this] consider (loop) "t \<in> set mt"
    | (rest) i r rd where "(i, r) \<in> set (List.enumerate 0 ?results)" "data r = Some rd"
        "has_coin rd" "t = result_only_trade r rd"
    by blast
  then show ?thesis
  proof cases
    case loop
    from signal_loop_trades [OF \<open>fold _ _ _ = (mt, used)\<close> loop] show ?thesis
      by auto
  next
    case rest
    then have "r \<in> set ?results" by (auto dest: enumerate_member)
    then show ?thesis using rest by auto
  qed
qed

subsection \<open>The sort and the handler\<close>

lemma sort_by_roi_mset: "sort_by_roi trades = Inr sorted_trades \<Longrightarrow> mset sorted_trades = mset trades"
  by (auto simp: sort_by_roi_def split: if_splits)

lemma match_signals_to_results_cases:
  assumes "match_signals_to_results cfg processed_data = Inr trades"
  shows "(trades = [] \<and> match_body cfg processed_data = Inl TypeError)
     \<or> (match_body cfg processed_data = Inr trades
         \<and> mset trades = mset (collect_trades cfg processed_data))"
proof (cases "match_body cfg processed_data")
  case (Inl e)
  then have "e = TypeError"
    by (auto simp: match_body_def sort_by_roi_def split: if_splits)
  then show ?thesis
    using assms Inl by (simp add: match_signals_to_results_def)
next
  case (Inr ts)
  then have "mset ts = mset (collect_trades cfg processed_data)"
    by (simp add: match_body_def sort_by_roi_mset)
  then show ?thesis
    using assms Inr by (simp add: match_signals_to_results_def)
qed

lemma emitted_trade_collected:
  assumes "match_signals_to_results cfg processed_data = Inr trades" and "t \<in> set trades"
  shows "t \<in> set (collect_trades cfg processed_data)"
  using match_signals_to_results_cases [OF assms(1)] assms(2)
  by (auto dest: mset_eq_setD)

subsection \<open>The matcher always returns a list\<close>

text \<open>
  Claim C6. Whatever the batch, records without coin, prices, roi or timestamp included,
  \<open>match_signals_to_results\<close> returns a list and raises nothing: what the body raises
  is caught by the handler, which returns the empty list.
\<close>

theorem match_signals_to_results_returns:
  "\<exists>trades. match_signals_to_results cfg processed_data = Inr trades"
  by (cases "match_body cfg processed_data") (simp_all add: match_signals_to_results_def)

subsection \<open>The coin of a matched trade\<close>

text \<open>
  Claim C10. Every emitted trade that names both a signal image and a result image is
  the merge of a signal and a result of the batch, and its coin is the coin of that
  signal, whatever the coin of the result.
\<close>

theorem matched_trade_has_signal_coin:
  assumes "match_signals_to_results cfg processed_data = Inr trades"
    and "t \<in> set trades"
    and "signal_image t \<noteq> None" and "result_image t \<noteq> None"
  shows "\<exists>s sd r rd. s \<in> set processed_data \<and> type s = ''signal'' \<and> data s = Some sd
      \<and> r \<in> set processed_data \<and> type r = ''result'' \<and> data r = Some rd
      \<and> t = matched_trade s sd r rd (calculate_match_score sd rd)
      \<and> dict_get (coin sd) = Some (trade_coin t)"
proof -
  have "t \<in> set (collect_trades cfg processed_data)"
    using assms(1,2) by (rule emitted_trade_collected)
  from collect_trades_cases [OF this] assms(3,4)
  obtain s sd r rd where m: "s \<in> set processed_data" "type s = ''signal''" "data s = Some sd"
    "has_coin sd" "r \<in> set processed_data" "type r = ''result''" "data r = Some rd"
    "t = matched_trade s sd r rd (calculate_match_score sd rd)"
    by (auto simp: signal_only_trade_def result_only_trade_def)
  have "dict_get (coin sd) = Some (trade_coin t)"
    using m(4,8) by (auto simp: has_coin_def matched_trade_def split: option.splits)
  then show ?thesis using m by blast
qed

lemma ratio_BTC_BCH: "ratio ''BTC'' ''BCH'' = 2 / 3"
  by code_simp

lemma similar_score:
  "calculate_match_score near_signal (near_result\<lparr>coin := Val ''BCH'', entry_price := Val 1\<rparr>) = 0.6"
  by (simp add: near_signal_def near_result_def time_diff_def py_or_def truthy_num_def
      calculate_match_score_def coin_agreement_def timestamp_proximity_def price_consistency_def
      truthy_str_def truthy_time_def Let_def ratio_BTC_BCH)

theorem matched_trade_has_signal_coin_witness:
  "match_signals_to_results lenient_config [tie_signal, similar_result]
     = Inr [matched_trade tie_signal near_signal similar_result
              (near_result\<lparr>coin := Val ''BCH'', entry_price := Val 1\<rparr>) 0.6]
   \<and> (\<exists>s sd r rd. s \<in> set [tie_signal, similar_result] \<and> type s = ''signal''
        \<and> data s = Some sd
        \<and> r \<in> set [tie_signal, similar_result] \<and> type r = ''result'' \<and> data r = Some rd
        \<and> matched_trade tie_signal near_signal similar_result
              (near_result\<lparr>coin := Val ''BCH'', entry_price := Val 1\<rparr>) 0.6
            = matched_trade s sd r rd (calculate_match_score sd rd)
        \<and> dict_get (coin sd) = Some (trade_coin (matched_trade tie_signal near_signal similar_result
              (near_result\<lparr>coin := Val ''BCH'', entry_price := Val 1\<rparr>) 0.6)))
   \<and> trade_coin (matched_trade tie_signal near_signal similar_result
              (near_result\<lparr>coin := Val ''BCH'', entry_price := Val 1\<rparr>) 0.6) = ''BTC''
   \<and> dict_get (coin (near_result\<lparr>coin := Val ''BCH'', entry_price := Val 1\<rparr>)) = Some ''BCH''"
proof -
  let ?rd = "near_result\<lparr>coin := Val ''BCH'', entry_price := Val 1\<rparr>"
  let ?t = "matched_trade tie_signal near_signal similar_result ?rd 0.6"
  have c: "has_coin near_signal"
    by (simp add: has_coin_def near_signal_def truthy_str_def)
  have collect: "collect_trades lenient_config [tie_signal, similar_result] = [?t]"
    by (simp add: collect_trades_def process_signal_def unmatched_result_def tie_signal_def
        similar_result_def c similar_score lenient_config_def Let_def)
  have run: "match_signals_to_results lenient_config [tie_signal, similar_result] = Inr [?t]"
    by (simp add: match_signals_to_results_def match_body_def collect sort_by_roi_def)
  have img: "signal_image ?t \<noteq> None" "result_image ?t \<noteq> None"
    by (simp_all add: matched_trade_def)
  have mem: "?t \<in> set [?t]"
    by simp
  note ex = matched_trade_has_signal_coin [OF run mem img]
  have coin: "trade_coin ?t = ''BTC''"
    by (simp add: matched_trade_def near_signal_def)
  have other: "dict_get (coin ?rd) = Some ''BCH''"
    by simp
  show ?thesis
    by (intro conjI run ex coin other)
qed

subsection \<open>The score is at most 1\<close>

lemma coin_agreement_bound:
  assumes "coin_agreement sd rd (s, m) = (s', m')" and "s \<le> m"
  shows "s' \<le> m' \<and> m \<le> m'"
proof -
  have "0.6 * ratio a b * 0.5 \<le> (0.6::real)" for a b :: string
    using ratio_bounds [of a b] by simp
  then have "s + 0.6 * ratio a b * 0.5 \<le> m + 0.6" for a b :: string
    using assms(2) by (simp add: add_mono)
  then show ?thesis
    using assms by (auto simp: coin_agreement_def split: option.splits if_splits)
qed

lemma time_diff_nonneg: "time_diff a b = Inr d \<Longrightarrow> 0 \<le> d"
  by (auto simp: time_diff_def split: sum.splits)

lemma timestamp_proximity_bound:
  assumes "timestamp_proximity sd rd (s, m) = (s', m')" and "s \<le> m"
  shows "s' \<le> m' \<and> m \<le> m'"
proof -
  have "s + 0.2 * (1 - d / 86400) \<le> m + 0.2" if "0 \<le> d" for d :: real
    using assms(2) that by argo
  then show ?thesis
    using assms
    by (auto simp: timestamp_proximity_def split: option.splits if_splits sum.splits
        dest: time_diff_nonneg)
qed

lemma price_ratio_le_1:
  fixes p q :: real
  assumes "0 \<le> p" and "0 \<le> q" and "p \<noteq> 0" and "q \<noteq> 0"
  shows "min p q / max p q \<le> 1"
proof -
  have "0 < max p q" using assms by (simp add: max_def)
  moreover have "min p q \<le> max p q" by simp
  ultimately show ?thesis by (simp only: divide_le_eq_1_pos)
qed

lemma py_or_cases: "py_or a b = Some q \<Longrightarrow> a = Some q \<or> b = Some q"
  by (auto simp: py_or_def split: option.splits if_splits)

lemma price_consistency_bound:
  assumes "price_consistency sd rd (s, m) = (s', m')" and "s \<le> m"
    and "\<And>p. dict_get (entry_price sd) = Some p \<Longrightarrow> 0 \<le> p"
    and "\<And>q. dict_get (entry_price rd) = Some q \<or> dict_get (exit_price rd) = Some q \<Longrightarrow> 0 \<le> q"
  shows "s' \<le> m' \<and> m \<le> m'"
proof (cases "dict_get (entry_price sd)")
  case None
  then show ?thesis using assms(1,2) by (simp add: price_consistency_def)
next
  case (Some p)
  show ?thesis
  proof (cases "py_or (dict_get (entry_price rd)) (dict_get (exit_price rd))")
    case None
    then show ?thesis using assms(1,2) Some by (simp add: price_consistency_def)
  next
    case (Some q)
    note q = this
    show ?thesis
    proof (cases "truthy_num p \<and> truthy_num q")
      case False
      then show ?thesis
        using assms(1,2) \<open>dict_get (entry_price sd) = Some p\<close> q
        by (auto simp: price_consistency_def)
    next
      case True
      have "0 \<le> p" using assms(3) \<open>dict_get (entry_price sd) = Some p\<close> by simp
      moreover have "0 \<le> q" using assms(4) py_or_cases [OF q] by blast
      ultimately have "min p q / max p q \<le> 1"
        using True by (intro price_ratio_le_1) (simp_all add: truthy_num_def)
      then have "s + 0.2 * (min p q / max p q) \<le> m + 0.2"
        using assms(2) by simp
      then show ?thesis
        using assms(1,2) \<open>dict_get (entry_price sd) = Some p\<close> q True
        by (auto simp: price_consistency_def Let_def split: if_splits)
    qed
  qed
qed

lemma calculate_match_score_le_1:
  assumes "\<And>p. dict_get (entry_price sd) = Some p \<Longrightarrow> 0 \<le> p"
    and "\<And>q. dict_get (entry_price rd) = Some q \<or> dict_get (exit_price rd) = Some q \<Longrightarrow> 0 \<le> q"
  shows "calculate_match_score sd rd \<le> 1"
proof -
  obtain s1 m1 where c: "coin_agreement sd rd (0, 0) = (s1, m1)"
    by (cases "coin_agreement sd rd (0, 0)")
  obtain s2 m2 where t: "timestamp_proximity sd rd (s1, m1) = (s2, m2)"
    by (cases "timestamp_proximity sd rd (s1, m1)")
  obtain s3 m3 where p: "price_consistency sd rd (s2, m2) = (s3, m3)"
    by (cases "price_consistency sd rd (s2, m2)")
  have "s1 \<le> m1" using coin_agreement_bound [OF c] by simp
  then have "s2 \<le> m2" using timestamp_proximity_bound [OF t] by simp
  then have "s3 \<le> m3" using price_consistency_bound [OF p _ assms] by simp
  then have "(if m3 > 0 then s3 / m3 else 0) \<le> 1"
    by (simp add: divide_le_eq_1_pos)
  then show ?thesis
    by (simp add: calculate_match_score_def c t p)
qed

subsection \<open>The confidence of an emitted trade\<close>

text \<open>
  Claim C9, as amended. Every emitted trade that lacks the signal image or the result
  image has confidence 0, every emitted trade that has both has a confidence of at least
  the threshold, and no emitted trade has a confidence strictly between 0 and the
  threshold. The confidence is at most 1 when no price of the batch is negative; the
  matcher does not look at the sign of a price, and two negative prices can take the
  confidence of a matched trade above 1.
\<close>

theorem match_confidence_range:
  assumes "match_signals_to_results cfg processed_data = Inr trades"
    and "t \<in> set trades"
  shows "(signal_image t = None \<or> result_image t = None \<longrightarrow> match_confidence t = 0)
     \<and> (signal_image t \<noteq> None \<and> result_image t \<noteq> None \<longrightarrow>
          auto_match_threshold cfg \<le> match_confidence t)
     \<and> \<not> (0 < match_confidence t \<and> match_confidence t < auto_match_threshold cfg)
     \<and> ((\<forall>d \<in> set processed_data. \<forall>x p. data d = Some x \<longrightarrow>
            dict_get (entry_price x) = Some p \<or> dict_get (exit_price x) = Some p \<longrightarrow> 0 \<le> p)
          \<longrightarrow> match_confidence t \<le> 1)"
proof -
  have "t \<in> set (collect_trades cfg processed_data)"
    using assms(1,2) by (rule emitted_trade_collected)
  from collect_trades_cases [OF this]
  consider (alone) s sd where "t = signal_only_trade s sd"
    | (matched) s sd r rd where "s \<in> set processed_data" "data s = Some sd"
        "r \<in> set processed_data" "data r = Some rd"
        "t = matched_trade s sd r rd (calculate_match_score sd rd)"
        "auto_match_threshold cfg \<le> calculate_match_score sd rd"
    | (rest) r rd where "t = result_only_trade r rd"
    by blast
  then show ?thesis
  proof cases
    case alone
    then show ?thesis by (simp add: signal_only_trade_def)
  next
    case matched
    have "calculate_match_score sd rd \<le> 1"
      if "\<forall>d \<in> set processed_data. \<forall>x p. data d = Some x \<longrightarrow>
            dict_get (entry_price x) = Some p \<or> dict_get (exit_price x) = Some p \<longrightarrow> 0 \<le> p"
      using that matched(1-4) by (intro calculate_match_score_le_1) blast+
    then show ?thesis
      using matched(5,6) by (simp add: matched_trade_def)
  next
    case rest
    then show ?thesis by (simp add: result_only_trade_def)
  qed
qed

lemma ratio_ETH_BTC: "ratio ''ETH'' ''BTC'' = 1 / 3"
  by code_simp

lemma lone_scores:
  "calculate_match_score lone_data (near_result\<lparr>entry_price := Val 2\<rparr>) = 1 / 6"
  "calculate_match_score lone_data near_result = 1 / 6"
  by (simp_all add: lone_data_def near_result_def py_or_def truthy_num_def
      calculate_match_score_def coin_agreement_def timestamp_proximity_def price_consistency_def
      truthy_str_def Let_def ratio_ETH_BTC)

lemma mixed_batch_collect:
  "collect_trades default_config mixed_batch =
     [matched_trade tie_signal near_signal (tie_results ! 1) near_result 0.98,
      signal_only_trade lone_signal lone_data,
      result_only_trade (tie_results ! 0) (near_result\<lparr>entry_price := Val 2\<rparr>),
      result_only_trade (tie_results ! 2) near_result]"
proof -
  have c: "has_coin near_signal" "has_coin lone_data" "has_coin near_result"
    "has_coin (near_result\<lparr>entry_price := Val 2\<rparr>)"
    by (simp_all add: has_coin_def near_signal_def near_result_def lone_data_def truthy_str_def)
  have signals: "filter (\<lambda>d. type d = ''signal'') mixed_batch = [tie_signal, lone_signal]"
    and results: "filter (\<lambda>d. type d = ''result'') mixed_batch = tie_results"
    by (simp_all add: mixed_batch_def tie_signal_def lone_signal_def tie_results_def)
  have first: "process_signal default_config tie_results tie_signal ([], {})
      = ([matched_trade tie_signal near_signal (tie_results ! 1) near_result 0.98], {1})"
    by (simp add: process_signal_def tie_signal_def c tie_results_def tie_scores
        default_config_def Let_def)
  have second: "process_signal default_config tie_results lone_signal
        ([matched_trade tie_signal near_signal (tie_results ! 1) near_result 0.98], {1})
      = ([matched_trade tie_signal near_signal (tie_results ! 1) near_result 0.98,
          signal_only_trade lone_signal lone_data], {1})"
    by (simp add: process_signal_def lone_signal_def c tie_results_def lone_scores
        default_config_def Let_def)
  have rest: "fold (unmatched_result {1}) (List.enumerate 0 tie_results) mt
      = mt @ [result_only_trade (tie_results ! 0) (near_result\<lparr>entry_price := Val 2\<rparr>),
              result_only_trade (tie_results ! 2) near_result]" for mt
    by (simp add: unmatched_result_def tie_results_def c)
  have loop: "fold (process_signal default_config tie_results) [tie_signal, lone_signal] ([], {})
      = ([matched_trade tie_signal near_signal (tie_results ! 1) near_result 0.98,
          signal_only_trade lone_signal lone_data], {1})"
    by (simp only: fold_simps comp_apply id_apply first second)
  show ?thesis
    unfolding collect_trades_def signals results Let_def loop prod.case rest
    by simp
qed

lemma mixed_batch_run:
  "match_signals_to_results default_config mixed_batch =
     Inr [matched_trade tie_signal near_signal (tie_results ! 1) near_result 0.98,
          result_only_trade (tie_results ! 0) (near_result\<lparr>entry_price := Val 2\<rparr>),
          result_only_trade (tie_results ! 2) near_result,
          signal_only_trade lone_signal lone_data]"
  by (simp add: match_signals_to_results_def match_body_def mixed_batch_collect sort_by_roi_def
      matched_trade_def result_only_trade_def signal_only_trade_def near_result_def lone_data_def
      near_signal_def)

lemma plain_scores:
  "calculate_match_score full_data same_price_result = 1"
  "calculate_match_score lone_data same_price_result = 1 / 6"
  by (simp_all add: full_data_def lone_data_def same_price_result_def time_diff_def py_or_def
      truthy_num_def calculate_match_score_def coin_agreement_def timestamp_proximity_def
      price_consistency_def truthy_str_def truthy_time_def Let_def ratio_ETH_BTC)

lemma plain_batch_run:
  "match_signals_to_results default_config plain_batch =
     Inr [matched_trade full_signal full_data (paid_results ! 0) same_price_result 1,
          result_only_trade (paid_results ! 1) same_price_result,
          signal_only_trade lone_signal lone_data]"
proof -
  have c: "has_coin full_data" "has_coin lone_data" "has_coin same_price_result"
    by (simp_all add: has_coin_def full_data_def lone_data_def same_price_result_def
        truthy_str_def)
  have signals: "filter (\<lambda>d. type d = ''signal'') plain_batch = [full_signal, lone_signal]"
    and results: "filter (\<lambda>d. type d = ''result'') plain_batch = paid_results"
    by (simp_all add: plain_batch_def full_signal_def lone_signal_def paid_results_def)
  have first: "process_signal default_config paid_results full_signal ([], {})
      = ([matched_trade full_signal full_data (paid_results ! 0) same_price_result 1], {0})"
    by (simp add: process_signal_def full_signal_def c paid_results_def plain_scores
        default_config_def Let_def)
  have second: "process_signal default_config paid_results lone_signal
        ([matched_trade full_signal full_data (paid_results ! 0) same_price_result 1], {0})
      = ([matched_trade full_signal full_data (paid_results ! 0) same_price_result 1,
          signal_only_trade lone_signal lone_data], {0})"
    by (simp add: process_signal_def lone_signal_def c paid_results_def plain_scores
        default_config_def Let_def)
  have rest: "fold (unmatched_result {0}) (List.enumerate 0 paid_results) mt
      = mt @ [result_only_trade (paid_results ! 1) same_price_result]" for mt
    by (simp add: unmatched_result_def paid_results_def c)
  have loop: "fold (process_signal default_config paid_results) [full_signal, lone_signal] ([], {})
      = ([matched_trade full_signal full_data (paid_results ! 0) same_price_result 1,
          signal_only_trade lone_signal lone_data], {0})"
    by (simp only: fold_simps comp_apply id_apply first second)
  have collect: "collect_trades default_config plain_batch =
     [matched_trade full_signal full_data (paid_results ! 0) same_price_result 1,
      signal_only_trade lone_signal lone_data,
      result_only_trade (paid_results ! 1) same_price_result]"
    unfolding collect_trades_def signals results Let_def loop prod.case rest
    by simp
  show ?thesis
    by (simp add: match_signals_to_results_def match_body_def collect sort_by_roi_def
        matched_trade_def result_only_trade_def signal_only_trade_def same_price_result_def
        lone_data_def full_data_def)
qed

theorem match_confidence_range_witness:
  "match_signals_to_results default_config plain_batch =
     Inr [matched_trade full_signal full_data (paid_results ! 0) same_price_result 1,
          result_only_trade (paid_results ! 1) same_price_result,
          signal_only_trade lone_signal lone_data]
   \<and> map match_confidence
        [matched_trade full_signal full_data (paid_results ! 0) same_price_result 1,
         result_only_trade (paid_results ! 1) same_price_result,
         signal_only_trade lone_signal lone_data] = [1, 0, 0]
   \<and> auto_match_threshold default_config
        \<le> match_confidence
             (matched_trade full_signal full_data (paid_results ! 0) same_price_result 1)
   \<and> match_confidence
        (matched_trade full_signal full_data (paid_results ! 0) same_price_result 1) \<le> 1"
proof -
  let ?t = "matched_trade full_signal full_data (paid_results ! 0) same_price_result 1"
  let ?trades = "[?t, result_only_trade (paid_results ! 1) same_price_result,
      signal_only_trade lone_signal lone_data]"
  have prices: "\<forall>d \<in> set plain_batch. \<forall>x p. data d = Some x \<longrightarrow>
      dict_get (entry_price x) = Some p \<or> dict_get (exit_price x) = Some p \<longrightarrow> 0 \<le> p"
    by (auto simp: plain_batch_def full_signal_def lone_signal_def paid_results_def
        full_data_def same_price_result_def lone_data_def)
  have mem: "?t \<in> set ?trades"
    by simp
  have img: "signal_image ?t \<noteq> None \<and> result_image ?t \<noteq> None"
    by (simp add: matched_trade_def)
  note range = match_confidence_range [OF plain_batch_run mem]
  have low: "auto_match_threshold default_config \<le> match_confidence ?t"
    using range img by blast
  have high: "match_confidence ?t \<le> 1"
    using range prices by blast
  have all: "map match_confidence ?trades = [1, 0, 0]"
    by (simp add: matched_trade_def result_only_trade_def signal_only_trade_def)
  show ?thesis
    by (intro conjI plain_batch_run all low high)
qed

text \<open>
  Claim C9 as stated (a matched trade has a confidence of at most 1.0) fails for a signal
  at price -1 and a result of the same coin at price -0.5: the price ratio is 2, the
  price factor earns twice its weight, and the emitted matched trade has confidence 5/4.
\<close>

theorem negative_prices_exceed_one_counterexample:
  "match_signals_to_results default_config [negative_signal, negative_result]
     = Inr [matched_trade negative_signal minus_one_data negative_result minus_half_data (5 / 4)]
   \<and> match_confidence
        (matched_trade negative_signal minus_one_data negative_result minus_half_data (5 / 4))
       = 5 / 4
   \<and> (1::real) < 5 / 4"
proof -
  have score: "calculate_match_score minus_one_data minus_half_data = 5 / 4"
    by (simp add: minus_one_data_def minus_half_data_def py_or_def truthy_num_def
        calculate_match_score_def coin_agreement_def timestamp_proximity_def
        price_consistency_def truthy_str_def Let_def)
  have c: "has_coin minus_one_data"
    by (simp add: has_coin_def minus_one_data_def truthy_str_def)
  have collect: "collect_trades default_config [negative_signal, negative_result]
      = [matched_trade negative_signal minus_one_data negative_result minus_half_data (5 / 4)]"
    by (simp add: collect_trades_def process_signal_def unmatched_result_def negative_signal_def
        negative_result_def c score default_config_def Let_def)
  have run: "match_signals_to_results default_config [negative_signal, negative_result]
      = Inr [matched_trade negative_signal minus_one_data negative_result minus_half_data (5 / 4)]"
    by (simp add: match_signals_to_results_def match_body_def collect sort_by_roi_def)
  show ?thesis
    using run by (simp add: matched_trade_def)
qed

subsection \<open>The fields of a matched trade\<close>

text \<open>
  Claim C7, as amended. Every emitted trade that names both a signal image and a result
  image merges a signal and a result of the batch as follows. Its exit price is what the
  result holds under \<open>exit_price\<close>, unset when the result has none. Its status is what
  the result holds under \<open>status\<close>, and \<open>unknown\<close> when the result has no such key.
  Its roi is the roi of the result when the result has one, and the roi of the signal when
  the result has no key \<open>roi\<close>. The signal's exit price and status are never used.
\<close>

theorem matched_trade_fields:
  assumes "match_signals_to_results cfg processed_data = Inr trades"
    and "t \<in> set trades"
    and "signal_image t \<noteq> None" and "result_image t \<noteq> None"
  shows "\<exists>s sd r rd. s \<in> set processed_data \<and> type s = ''signal'' \<and> data s = Some sd
      \<and> r \<in> set processed_data \<and> type r = ''result'' \<and> data r = Some rd
      \<and> signal_image t = Some (path s) \<and> result_image t = Some (path r)
      \<and> trade_exit_price t = dict_get (exit_price rd)
      \<and> trade_status t = dict_get_default (status rd) (Some ''unknown'')
      \<and> (\<forall>v. roi rd = Val v \<longrightarrow> trade_roi t = Some v)
      \<and> (roi rd = Missing \<longrightarrow> trade_roi t = dict_get (roi sd))"
proof -
  have "t \<in> set (collect_trades cfg processed_data)"
    using assms(1,2) by (rule emitted_trade_collected)
  from collect_trades_cases [OF this] assms(3,4)
  obtain s sd r rd where m: "s \<in> set processed_data" "type s = ''signal''" "data s = Some sd"
    "r \<in> set processed_data" "type r = ''result''" "data r = Some rd"
    "t = matched_trade s sd r rd (calculate_match_score sd rd)"
    by (auto simp: signal_only_trade_def result_only_trade_def)
  have "signal_image t = Some (path s)" "result_image t = Some (path r)"
    "trade_exit_price t = dict_get (exit_price rd)"
    "trade_status t = dict_get_default (status rd) (Some ''unknown'')"
    "\<forall>v. roi rd = Val v \<longrightarrow> trade_roi t = Some v"
    "roi rd = Missing \<longrightarrow> trade_roi t = dict_get (roi sd)"
    by (simp_all add: m(7) matched_trade_def)
  then show ?thesis using m(1-6) by blast
qed

lemma full_bare_score: "calculate_match_score full_data bare_data = 1"
  by (simp add: full_data_def bare_data_def time_diff_def py_or_def truthy_num_def
      calculate_match_score_def coin_agreement_def timestamp_proximity_def price_consistency_def
      truthy_str_def truthy_time_def Let_def)

lemma full_bare_run:
  "match_signals_to_results default_config [full_signal, bare_result]
     = Inr [matched_trade full_signal full_data bare_result bare_data 1]"
proof -
  have c: "has_coin full_data"
    by (simp add: has_coin_def full_data_def truthy_str_def)
  have "collect_trades default_config [full_signal, bare_result]
      = [matched_trade full_signal full_data bare_result bare_data 1]"
    by (simp add: collect_trades_def process_signal_def unmatched_result_def full_signal_def
        bare_result_def c full_bare_score default_config_def Let_def)
  then show ?thesis
    by (simp add: match_signals_to_results_def match_body_def sort_by_roi_def)
qed

theorem matched_trade_fields_witness:
  "match_signals_to_results default_config [full_signal, bare_result]
     = Inr [matched_trade full_signal full_data bare_result bare_data 1]
   \<and> (\<exists>s sd r rd. s \<in> set [full_signal, bare_result] \<and> type s = ''signal'' \<and> data s = Some sd
      \<and> r \<in> set [full_signal, bare_result] \<and> type r = ''result'' \<and> data r = Some rd
      \<and> signal_image (matched_trade full_signal full_data bare_result bare_data 1) = Some (path s)
      \<and> result_image (matched_trade full_signal full_data bare_result bare_data 1) = Some (path r)
      \<and> trade_exit_price (matched_trade full_signal full_data bare_result bare_data 1)
          = dict_get (exit_price rd)
      \<and> trade_status (matched_trade full_signal full_data bare_result bare_data 1)
          = dict_get_default (status rd) (Some ''unknown'')
      \<and> (\<forall>v. roi rd = Val v \<longrightarrow>
            trade_roi (matched_trade full_signal full_data bare_result bare_data 1) = Some v)
      \<and> (roi rd = Missing \<longrightarrow>
            trade_roi (matched_trade full_signal full_data bare_result bare_data 1)
              = dict_get (roi sd)))
   \<and> roi bare_data = Missing \<and> dict_get (roi full_data) = Some 5
   \<and> trade_roi (matched_trade full_signal full_data bare_result bare_data 1) = Some 5"
proof -
  let ?t = "matched_trade full_signal full_data bare_result bare_data 1"
  have mem: "?t \<in> set [?t]"
    by simp
  have img: "signal_image ?t \<noteq> None" "result_image ?t \<noteq> None"
    by (simp_all add: matched_trade_def)
  note fields = matched_trade_fields [OF full_bare_run mem img]
  have roi: "roi bare_data = Missing" "dict_get (roi full_data) = Some 5" "trade_roi ?t = Some 5"
    by (simp_all add: matched_trade_def bare_data_def full_data_def)
  show ?thesis
    by (intro conjI full_bare_run fields roi)
qed

text \<open>
  Claim C7 as stated fails for this batch: the result has neither exit price nor status,
  the signal has both, and the merged trade has no exit price and the status \<open>unknown\<close>.
\<close>

theorem no_fallback_counterexample:
  "match_signals_to_results default_config [full_signal, bare_result]
     = Inr [matched_trade full_signal full_data bare_result bare_data 1]
   \<and> dict_get (exit_price bare_data) = None \<and> dict_get (exit_price full_data) = Some 2
   \<and> trade_exit_price (matched_trade full_signal full_data bare_result bare_data 1) = None
   \<and> dict_get (status bare_data) = None \<and> dict_get (status full_data) = Some ''win''
   \<and> trade_status (matched_trade full_signal full_data bare_result bare_data 1) = Some ''unknown''"
  by (simp add: full_bare_run matched_trade_def bare_data_def full_data_def)

subsection \<open>A result without a coin can be consumed\<close>

lemma coinless_score: "calculate_match_score full_data coinless_data = 1"
  by (simp add: full_data_def coinless_data_def time_diff_def py_or_def truthy_num_def
      calculate_match_score_def coin_agreement_def timestamp_proximity_def price_consistency_def
      truthy_str_def truthy_time_def Let_def)

text \<open>
  Claim C2 says that a result whose coin is empty is never consumed by a signal. The
  candidate scan skips a result only when its data are missing, not when its coin is:
  the score of the signal against the coinless result below counts time and price only,
  is 1, and the result is consumed and named by the emitted trade. The guard on the coin
  is there for the signals and for the results that are emitted alone.
\<close>

theorem coinless_result_is_consumed:
  "dict_get (coin coinless_data) = Some []
   \<and> match_signals_to_results default_config [full_signal, coinless_result]
     = Inr [matched_trade full_signal full_data coinless_result coinless_data 1]
   \<and> result_image (matched_trade full_signal full_data coinless_result coinless_data 1)
     = Some (path coinless_result)"
proof -
  have c: "has_coin full_data"
    by (simp add: has_coin_def full_data_def truthy_str_def)
  have "collect_trades default_config [full_signal, coinless_result]
      = [matched_trade full_signal full_data coinless_result coinless_data 1]"
    by (simp add: collect_trades_def process_signal_def unmatched_result_def full_signal_def
        coinless_result_def c coinless_score default_config_def Let_def)
  then show ?thesis
    by (simp add: match_signals_to_results_def match_body_def sort_by_roi_def
        coinless_data_def matched_trade_def)
qed

subsection \<open>The sort raises on a missing roi\<close>

text \<open>
  Claim C3 says that a trade without roi is ordered as if its roi were 0 and stays in the
  emitted list. The sort key is \<open>x.get('roi', 0)\<close>, and every trade has the key \<open>roi\<close>,
  so the key of a trade without roi is \<open>None\<close>, not 0. For the two signals below the
  collected trades have the roi 5 and none; the sort raises \<open>TypeError\<close>, the handler
  catches it, and the matcher returns the empty list.
\<close>

theorem missing_roi_empties_the_output:
  "collect_trades default_config [full_signal, unrated_signal]
     = [signal_only_trade full_signal full_data, signal_only_trade unrated_signal unrated_data]
   \<and> trade_roi (signal_only_trade full_signal full_data) = Some 5
   \<and> trade_roi (signal_only_trade unrated_signal unrated_data) = None
   \<and> match_body default_config [full_signal, unrated_signal] = Inl TypeError
   \<and> match_signals_to_results default_config [full_signal, unrated_signal] = Inr []"
proof -
  have c: "has_coin full_data" "has_coin unrated_data"
    by (simp_all add: has_coin_def full_data_def unrated_data_def truthy_str_def)
  have collect: "collect_trades default_config [full_signal, unrated_signal]
     = [signal_only_trade full_signal full_data, signal_only_trade unrated_signal unrated_data]"
    by (simp add: collect_trades_def process_signal_def full_signal_def unrated_signal_def c Let_def)
  have roi: "trade_roi (signal_only_trade full_signal full_data) = Some 5"
    "trade_roi (signal_only_trade unrated_signal unrated_data) = None"
    by (simp_all add: signal_only_trade_def full_data_def unrated_data_def)
  have body: "match_body default_config [full_signal, unrated_signal] = Inl TypeError"
    by (simp add: match_body_def collect sort_by_roi_def roi)
  then have "match_signals_to_results default_config [full_signal, unrated_signal] = Inr []"
    by (simp add: match_signals_to_results_def)
  then show ?thesis
    using collect roi body by simp
qed

subsection \<open>Each result is referenced at most once\<close>

lemma result_refs_append: "result_refs (xs @ ys) = result_refs xs @ result_refs ys"
  by (induction xs) (auto simp: result_refs_def map_filter_simps split: option.splits)

lemma result_refs_single:
  "result_refs [signal_only_trade s sd] = []"
  "result_refs [matched_trade s sd r rd b] = [path r]"
  "result_refs [result_only_trade r rd] = [path r]"
  by (simp_all add: result_refs_def map_filter_simps signal_only_trade_def matched_trade_def
      result_only_trade_def)

lemma result_refs_mset:
  assumes "mset xs = mset ys"
  shows "mset (result_refs xs) = mset (result_refs ys)"
proof -
  have "mset (result_refs zs) = image_mset (the \<circ> result_image)
      (filter_mset (\<lambda>t. result_image t \<noteq> None) (mset zs))" for zs
    by (simp add: result_refs_def map_filter_def)
  then show ?thesis using assms by simp
qed

text \<open>
  The signal loop keeps this invariant: the references of the trades so far are the paths
  of the results at the consumed indices, each index once.
\<close>

lemma process_signal_refs:
  assumes "process_signal cfg results s (mt, used) = (mt', used')"
    and "distinct is" and "set is = used" and "\<forall>i \<in> used. i < length results"
    and "result_refs mt = map (\<lambda>i. path (results ! i)) is"
  shows "\<exists>js. distinct js \<and> set js = used' \<and> (\<forall>i \<in> used'. i < length results)
      \<and> result_refs mt' = map (\<lambda>i. path (results ! i)) js"
proof -
  from process_signal_cases [OF assms(1)]
  consider (same) "mt' = mt" "used' = used"
    | (alone) sd where "mt' = mt @ [signal_only_trade s sd]" "used' = used"
    | (matched) sd i rd where "i < length results" "i \<notin> used"
        "mt' = mt @ [matched_trade s sd (results ! i) rd (calculate_match_score sd rd)]"
        "used' = insert i used"
    by blast
  then show ?thesis
  proof cases
    case same
    then show ?thesis using assms(2-5) by blast
  next
    case alone
    then have "result_refs mt' = map (\<lambda>i. path (results ! i)) is"
      using assms(5) by (simp add: result_refs_append result_refs_single)
    then show ?thesis using assms(2-4) alone(2) by blast
  next
    case matched
    have "result_refs mt' = map (\<lambda>i. path (results ! i)) (is @ [i])"
      using assms(5) matched(3) by (simp add: result_refs_append result_refs_single)
    moreover have "distinct (is @ [i])" "set (is @ [i]) = used'"
      using assms(2,3) matched(2,4) by auto
    moreover have "\<forall>j \<in> used'. j < length results"
      using assms(4) matched(1,4) by auto
    ultimately show ?thesis by blast
  qed
qed

lemma signal_loop_refs:
  assumes "fold (process_signal cfg results) signals (mt, used) = (mt', used')"
    and "distinct is" and "set is = used" and "\<forall>i \<in> used. i < length results"
    and "result_refs mt = map (\<lambda>i. path (results ! i)) is"
  shows "\<exists>js. distinct js \<and> set js = used' \<and> (\<forall>i \<in> used'. i < length results)
      \<and> result_refs mt' = map (\<lambda>i. path (results ! i)) js"
  using assms
proof (induction signals arbitrary: mt used "is")
  case Nil
  then show ?case by auto
next
  case (Cons s signals)
  obtain mt1 used1 where step: "process_signal cfg results s (mt, used) = (mt1, used1)"
    by (cases "process_signal cfg results s (mt, used)")
  then have rest: "fold (process_signal cfg results) signals (mt1, used1) = (mt', used')"
    using Cons.prems(1) by simp
  from process_signal_refs [OF step Cons.prems(2-5)]
  obtain js where "distinct js" "set js = used1" "\<forall>i \<in> used1. i < length results"
    "result_refs mt1 = map (\<lambda>i. path (results ! i)) js"
    by blast
  then show ?case
    by (rule Cons.IH [OF rest])
qed

lemma unmatched_result_step:
  "unmatched_result used (i, r) mt =
     mt @ (case data r of None \<Rightarrow> []
           | Some rd \<Rightarrow> if i \<notin> used \<and> has_coin rd then [result_only_trade r rd] else [])"
  by (simp add: unmatched_result_def split: option.splits)

lemma unmatched_refs:
  "result_refs (fold (unmatched_result used) ps mt) =
     result_refs mt @ map (\<lambda>(i, r). path r)
       (filter (\<lambda>(i, r). i \<notin> used \<and> (\<exists>rd. data r = Some rd \<and> has_coin rd)) ps)"
proof (induction ps arbitrary: mt)
  case Nil
  show ?case by simp
next
  case (Cons p ps)
  obtain i r where p: "p = (i, r)" by (cases p)
  have "result_refs (fold (unmatched_result used) (p # ps) mt)
      = result_refs (unmatched_result used (i, r) mt) @ map (\<lambda>(i, r). path r)
       (filter (\<lambda>(i, r). i \<notin> used \<and> (\<exists>rd. data r = Some rd \<and> has_coin rd)) ps)"
    using Cons.IH [of "unmatched_result used (i, r) mt"] by (simp add: p)
  moreover have "result_refs (unmatched_result used (i, r) mt)
      = result_refs mt @ (if i \<notin> used \<and> (\<exists>rd. data r = Some rd \<and> has_coin rd) then [path r] else [])"
    by (cases "data r")
       (simp_all add: unmatched_result_step result_refs_append result_refs_single
          result_refs_def [of "[]"] map_filter_simps)
  ultimately show ?case
    by (simp add: p)
qed

lemma enumerate_nth:
  "(i, r) \<in> set (List.enumerate 0 xs) \<Longrightarrow> i < length xs \<and> r = xs ! i"
  by (auto simp: enumerate_eq_zip in_set_zip)

lemma collect_trades_refs:
  "\<exists>is. distinct is \<and> (\<forall>i \<in> set is. i < length (filter (\<lambda>d. type d = ''result'') processed_data))
     \<and> result_refs (collect_trades cfg processed_data)
        = map (\<lambda>i. path (filter (\<lambda>d. type d = ''result'') processed_data ! i)) is"
proof -
  let ?signals = "filter (\<lambda>d. type d = ''signal'') processed_data"
  let ?results = "filter (\<lambda>d. type d = ''result'') processed_data"
  let ?P = "\<lambda>used. \<lambda>(i, r). i \<notin> used \<and> (\<exists>rd. data r = Some rd \<and> has_coin rd)"
  obtain mt used where loop: "fold (process_signal cfg ?results) ?signals ([], {}) = (mt, used)"
    by (cases "fold (process_signal cfg ?results) ?signals ([], {})")
  have "\<exists>js. distinct js \<and> set js = used \<and> (\<forall>i \<in> used. i < length ?results)
      \<and> result_refs mt = map (\<lambda>i. path (?results ! i)) js"
    by (rule signal_loop_refs [OF loop, of "[]"]) (simp_all add: result_refs_def map_filter_simps)
  then obtain js where js: "distinct js" "set js = used" "\<forall>i \<in> used. i < length ?results"
    "result_refs mt = map (\<lambda>i. path (?results ! i)) js"
    by blast
  define ps where "ps = filter (?P used) (List.enumerate 0 ?results)"
  define ks where "ks = map fst ps"
  have all: "collect_trades cfg processed_data =
      fold (unmatched_result used) (List.enumerate 0 ?results) mt"
    by (simp add: collect_trades_def loop Let_def)
  have in_ps: "i < length ?results \<and> r = ?results ! i \<and> i \<notin> used" if "(i, r) \<in> set ps" for i r
    using that enumerate_nth [of i r ?results] by (auto simp: ps_def)
  have "map (\<lambda>(i, r). path r) ps = map (\<lambda>i. path (?results ! i)) ks"
    unfolding ks_def using in_ps by (auto simp: map_eq_conv)
  then have refs: "result_refs (collect_trades cfg processed_data)
      = map (\<lambda>i. path (?results ! i)) (js @ ks)"
    unfolding all unmatched_refs js(4) ps_def by simp
  have "distinct (map fst (List.enumerate 0 ?results))"
    by simp
  then have "distinct ks"
    unfolding ks_def ps_def by (rule distinct_map_filter)
  moreover have "set ks \<inter> set js = {}"
    using in_ps js(2) by (auto simp: ks_def)
  ultimately have "distinct (js @ ks)"
    using js(1) by auto
  moreover have "\<forall>i \<in> set (js @ ks). i < length ?results"
    using js(2,3) in_ps by (auto simp: ks_def)
  ultimately have "distinct (js @ ks) \<and> (\<forall>i \<in> set (js @ ks). i < length ?results)
      \<and> result_refs (collect_trades cfg processed_data) = map (\<lambda>i. path (?results ! i)) (js @ ks)"
    using refs by (intro conjI)
  then show ?thesis
    by (rule exI [of _ "js @ ks"])
qed

lemma distinct_paths_at:
  assumes "distinct (map path results)" and "distinct is" and "\<forall>i \<in> set is. i < length results"
  shows "distinct (map (\<lambda>i. path (results ! i)) is)"
proof -
  have "inj_on (\<lambda>i. path (results ! i)) (set is)"
  proof (rule inj_onI)
    fix i j
    assume a: "i \<in> set is" "j \<in> set is" "path (results ! i) = path (results ! j)"
    then have "i < length (map path results)" "j < length (map path results)"
      "map path results ! i = map path results ! j"
      using assms(3) by simp_all
    then show "i = j"
      using assms(1) by (simp only: nth_eq_iff_index_eq)
  qed
  then show ?thesis
    using assms(2) by (simp add: distinct_map)
qed

text \<open>
  Claim C4. The references to results in the emitted trades are the paths of pairwise
  different results of the batch, one reference for each such result. So no result is
  named by two trades; where the results have different paths, no path occurs twice
  among the references.
\<close>

theorem result_referenced_at_most_once:
  assumes "match_signals_to_results cfg processed_data = Inr trades"
  shows "(\<exists>is. distinct is
        \<and> (\<forall>i \<in> set is. i < length (filter (\<lambda>d. type d = ''result'') processed_data))
        \<and> mset (result_refs trades)
           = mset (map (\<lambda>i. path (filter (\<lambda>d. type d = ''result'') processed_data ! i)) is))
     \<and> (distinct (map path (filter (\<lambda>d. type d = ''result'') processed_data))
          \<longrightarrow> distinct (result_refs trades))"
proof -
  let ?results = "filter (\<lambda>d. type d = ''result'') processed_data"
  have ex: "\<exists>is. distinct is \<and> (\<forall>i \<in> set is. i < length ?results)
      \<and> mset (result_refs trades) = mset (map (\<lambda>i. path (?results ! i)) is)"
  proof -
    from match_signals_to_results_cases [OF assms]
    consider "trades = []" | "mset trades = mset (collect_trades cfg processed_data)"
      by blast
    then show ?thesis
    proof cases
      case 1
      have "mset (result_refs trades) = mset (map (\<lambda>i. path (?results ! i)) [])"
        using 1 by (simp add: result_refs_def map_filter_simps)
      then have "distinct ([]::nat list) \<and> (\<forall>i \<in> set ([]::nat list). i < length ?results)
          \<and> mset (result_refs trades) = mset (map (\<lambda>i. path (?results ! i)) [])"
        by simp
      then show ?thesis by (rule exI [of _ "[]"])
    next
      case 2
      from collect_trades_refs [of processed_data cfg]
      obtain "is" where "is": "distinct is" "\<forall>i \<in> set is. i < length ?results"
        "result_refs (collect_trades cfg processed_data) = map (\<lambda>i. path (?results ! i)) is"
        by blast
      have "mset (result_refs trades) = mset (map (\<lambda>i. path (?results ! i)) is)"
        using result_refs_mset [OF 2] "is"(3) by simp
      then have "distinct is \<and> (\<forall>i \<in> set is. i < length ?results)
          \<and> mset (result_refs trades) = mset (map (\<lambda>i. path (?results ! i)) is)"
        using "is"(1,2) by (intro conjI)
      then show ?thesis by (rule exI [of _ "is"])
    qed
  qed
  have dist: "distinct (result_refs trades)" if d: "distinct (map path ?results)"
  proof -
    from ex obtain "is" where "is": "distinct is" "\<forall>i \<in> set is. i < length ?results"
      "mset (result_refs trades) = mset (map (\<lambda>i. path (?results ! i)) is)"
      by blast
    have "distinct (map (\<lambda>i. path (?results ! i)) is)"
      using d "is"(1,2) by (rule distinct_paths_at)
    then show ?thesis
      using mset_eq_imp_distinct_iff [OF "is"(3)] by simp
  qed
  show ?thesis
    using ex dist by (intro conjI impI)
qed

theorem result_referenced_at_most_once_witness:
  "match_signals_to_results default_config mixed_batch =
     Inr [matched_trade tie_signal near_signal (tie_results ! 1) near_result 0.98,
          result_only_trade (tie_results ! 0) (near_result\<lparr>entry_price := Val 2\<rparr>),
          result_only_trade (tie_results ! 2) near_result,
          signal_only_trade lone_signal lone_data]
   \<and> distinct (map path (filter (\<lambda>d. type d = ''result'') mixed_batch))
   \<and> result_refs
        [matched_trade tie_signal near_signal (tie_results ! 1) near_result 0.98,
         result_only_trade (tie_results ! 0) (near_result\<lparr>entry_price := Val 2\<rparr>),
         result_only_trade (tie_results ! 2) near_result,
         signal_only_trade lone_signal lone_data]
      = [''result_2.png'', ''result_1.png'', ''result_3.png'']
   \<and> distinct (result_refs
        [matched_trade tie_signal near_signal (tie_results ! 1) near_result 0.98,
         result_only_trade (tie_results ! 0) (near_result\<lparr>entry_price := Val 2\<rparr>),
         result_only_trade (tie_results ! 2) near_result,
         signal_only_trade lone_signal lone_data])"
proof -
  let ?trades = "[matched_trade tie_signal near_signal (tie_results ! 1) near_result 0.98,
         result_only_trade (tie_results ! 0) (near_result\<lparr>entry_price := Val 2\<rparr>),
         result_only_trade (tie_results ! 2) near_result,
         signal_only_trade lone_signal lone_data]"
  have paths: "distinct (map path (filter (\<lambda>d. type d = ''result'') mixed_batch))"
    by (simp add: mixed_batch_def tie_signal_def lone_signal_def tie_results_def)
  have refs: "result_refs ?trades = [''result_2.png'', ''result_1.png'', ''result_3.png'']"
    by (simp add: result_refs_def map_filter_simps matched_trade_def result_only_trade_def
        signal_only_trade_def tie_results_def)
  from result_referenced_at_most_once [OF mixed_batch_run] paths
  have "distinct (result_refs ?trades)"
    by (elim conjE impE)
  then show ?thesis
    by (intro conjI mixed_batch_run paths refs)
qed

subsection \<open>Accepting a similar coin\<close>

lemma fold_direct_match_none:
  assumes "\<forall>symbol \<in> set known_coins. \<not> contains text symbol"
  shows "fold (direct_match text region_conf) known_coins best = best"
  using assms by (induction known_coins) (auto simp: direct_match_def)

lemma similar_match_step:
  "similar_match token region_conf symbol (bm, bc) =
     (if ratio token symbol > 0.8 \<and> region_conf * ratio token symbol > bc
      then (symbol, region_conf * ratio token symbol) else (bm, bc))"
  by (simp add: similar_match_def Let_def)

lemma fold_similar_match:
  assumes "fold (similar_match token region_conf) known_coins (bm, bc) = (bm', bc')"
  shows "bc \<le> bc'
     \<and> (\<forall>symbol \<in> set known_coins. ratio token symbol > 0.8
            \<longrightarrow> region_conf * ratio token symbol \<le> bc')
     \<and> ((bm' = bm \<and> bc' = bc)
          \<or> (bm' \<in> set known_coins \<and> bc' = region_conf * ratio token bm'
              \<and> ratio token bm' > 0.8 \<and> bc' > bc))"
  using assms
proof (induction known_coins arbitrary: bm bc)
  case Nil
  then show ?case by simp
next
  case (Cons symbol known_coins)
  let ?c = "region_conf * ratio token symbol"
  show ?case
  proof (cases "ratio token symbol > 0.8 \<and> ?c > bc")
    case True
    then have "similar_match token region_conf symbol (bm, bc) = (symbol, ?c)"
      by (simp add: similar_match_step)
    then have "fold (similar_match token region_conf) known_coins (symbol, ?c) = (bm', bc')"
      using Cons.prems by (simp only: fold_simps comp_apply)
    from Cons.IH [OF this] True show ?thesis by auto
  next
    case False
    then have "similar_match token region_conf symbol (bm, bc) = (bm, bc)"
      by (simp only: similar_match_step) simp
    then have "fold (similar_match token region_conf) known_coins (bm, bc) = (bm', bc')"
      using Cons.prems by (simp only: fold_simps comp_apply)
    from Cons.IH [OF this] False show ?thesis by auto
  qed
qed

text \<open>
  Claim C8, as amended. Take a region of positive confidence whose text holds one token
  of capitals and contains no known coin. If some known coin has a similarity to the
  token above 0.8, the detection returns a known coin of greatest similarity, which is
  above 0.8, with the confidence of the region times that similarity. If every known coin
  has a similarity of at most 0.8, a similarity of exactly 0.8 included, nothing is
  accepted: the detection returns the empty text and the confidence 0.
\<close>

theorem similar_coin_accepted_above_threshold:
  assumes "findall_coin (upper (region_text region)) = [token]"
    and "\<forall>symbol \<in> set known_coins. \<not> contains (upper (region_text region)) symbol"
    and "0 < region_confidence region"
  shows "((\<exists>symbol \<in> set known_coins. ratio token symbol > 0.8) \<longrightarrow>
          (\<exists>best \<in> set known_coins.
              detect_coin_name known_coins [region]
                = (best, region_confidence region * ratio token best)
              \<and> ratio token best > 0.8
              \<and> (\<forall>symbol \<in> set known_coins. ratio token symbol \<le> ratio token best)))
     \<and> ((\<forall>symbol \<in> set known_coins. ratio token symbol \<le> 0.8) \<longrightarrow>
          detect_coin_name known_coins [region] = ([], 0))"
proof -
  let ?conf = "region_confidence region"
  have "token \<in> set (findall_coin (upper (region_text region)))"
    using assms(1) by simp
  then have len: "2 \<le> length token"
    by (simp add: findall_coin_def)
  obtain bm bc where f: "fold (similar_match token ?conf) known_coins ([], 0) = (bm, bc)"
    by (cases "fold (similar_match token ?conf) known_coins ([], 0)")
  have run: "detect_coin_name known_coins [region] = (bm, bc)"
    by (simp add: detect_coin_name_def detect_in_region_def Let_def assms(1)
        fold_direct_match_none [OF assms(2)] len f)
  note facts = fold_similar_match [OF f]
  have above: "\<exists>best \<in> set known_coins.
      detect_coin_name known_coins [region] = (best, ?conf * ratio token best)
      \<and> ratio token best > 0.8
      \<and> (\<forall>symbol \<in> set known_coins. ratio token symbol \<le> ratio token best)"
    if "\<exists>symbol \<in> set known_coins. ratio token symbol > 0.8"
  proof -
    from that obtain s where s: "s \<in> set known_coins" "ratio token s > 0.8"
      by blast
    have "0 < ?conf * ratio token s"
      using assms(3) s(2) by simp
    moreover have "?conf * ratio token s \<le> bc"
      using facts s by blast
    ultimately have "bc \<noteq> 0" by simp
    then have best: "bm \<in> set known_coins" "bc = ?conf * ratio token bm" "ratio token bm > 0.8"
      using facts by auto
    have "ratio token symbol \<le> ratio token bm" if "symbol \<in> set known_coins" for symbol
    proof (cases "ratio token symbol > 0.8")
      case True
      then have "?conf * ratio token symbol \<le> ?conf * ratio token bm"
        using facts that best(2) by auto
      then show ?thesis
        using assms(3) by simp
    next
      case False
      then show ?thesis using best(3) by simp
    qed
    then show ?thesis
      using best run by blast
  qed
  have below: "detect_coin_name known_coins [region] = ([], 0)"
    if "\<forall>symbol \<in> set known_coins. ratio token symbol \<le> 0.8"
  proof -
    have "\<not> (bm \<in> set known_coins \<and> ratio token bm > 0.8)"
      using that by (auto simp: not_less)
    then have "bm = [] \<and> bc = 0"
      using facts by blast
    then show ?thesis using run by simp
  qed
  show ?thesis
    using above below by blast
qed

lemma lost_letter_run: "detect_coin_name default_coins [lost_letter] = (''THETA'', 0.8)"
  by code_simp

lemma lost_letter_no_direct_match:
  "\<forall>symbol \<in> set default_coins. \<not> contains (upper (region_text lost_letter)) symbol"
  by code_simp

lemma ratio_lost_letter: "ratio ''THTA'' ''THETA'' = 8 / 9"
  by code_simp

theorem similar_coin_accepted_above_threshold_witness:
  "findall_coin (upper (region_text lost_letter)) = [''THTA'']
   \<and> ratio ''THTA'' ''THETA'' = 8 / 9
   \<and> detect_coin_name default_coins [lost_letter] = (''THETA'', 0.9 * (8 / 9))
   \<and> (\<exists>best \<in> set default_coins.
         detect_coin_name default_coins [lost_letter]
           = (best, region_confidence lost_letter * ratio ''THTA'' best)
         \<and> ratio ''THTA'' best > 0.8
         \<and> (\<forall>symbol \<in> set default_coins. ratio ''THTA'' symbol \<le> ratio ''THTA'' best))"
proof -
  have token: "findall_coin (upper (region_text lost_letter)) = [''THTA'']"
    by code_simp
  have conf: "0 < region_confidence lost_letter"
    by (simp add: lost_letter_def)
  have some: "\<exists>symbol \<in> set default_coins. ratio ''THTA'' symbol > 0.8"
  proof
    show "''THETA'' \<in> set default_coins" by (simp add: default_coins_def)
    show "ratio ''THTA'' ''THETA'' > 0.8" by (simp add: ratio_lost_letter)
  qed
  note both = similar_coin_accepted_above_threshold [OF token lost_letter_no_direct_match conf]
  have "\<exists>best \<in> set default_coins.
         detect_coin_name default_coins [lost_letter]
           = (best, region_confidence lost_letter * ratio ''THTA'' best)
         \<and> ratio ''THTA'' best > 0.8
         \<and> (\<forall>symbol \<in> set default_coins. ratio ''THTA'' symbol \<le> ratio ''THTA'' best)"
    by (rule mp [OF conjunct1 [OF both] some])
  moreover have "detect_coin_name default_coins [lost_letter] = (''THETA'', 0.9 * (8 / 9))"
    by (simp add: lost_letter_run)
  ultimately show ?thesis
    using token ratio_lost_letter by (intro conjI)
qed

text \<open>
  Claim C8 as stated (a best similarity of exactly 0.8 is accepted) fails for the text
  THETX: no known coin occurs in it, its similarity to the known coin THETA is exactly
  0.8, and nothing is accepted.
\<close>

theorem similarity_of_exactly_080_counterexample:
  "findall_coin (upper (region_text wrong_letter)) = [''THETX'']
   \<and> list_ex (contains (upper (region_text wrong_letter))) default_coins = False
   \<and> ''THETA'' \<in> set default_coins
   \<and> ratio ''THETX'' ''THETA'' = 0.8
   \<and> detect_coin_name default_coins [wrong_letter] = ([], 0)"
  by code_simp

subsection \<open>What the guards on the coin and the sort do achieve\<close>

text \<open>
  Every emitted trade carries a coin: a signal without coin is skipped, a result without
  coin is not emitted alone, and a matched trade has the coin of its signal.
\<close>

lemma emitted_trade_has_coin:
  assumes "match_signals_to_results cfg processed_data = Inr trades" and "t \<in> set trades"
  shows "trade_coin t \<noteq> []"
proof -
  have coin: "(case dict_get (coin d) of Some c \<Rightarrow> c | None \<Rightarrow> []) \<noteq> []" if "has_coin d" for d
    using that by (auto simp: has_coin_def truthy_str_def split: option.splits)
  have "t \<in> set (collect_trades cfg processed_data)"
    using assms by (rule emitted_trade_collected)
  from collect_trades_cases [OF this] show ?thesis
    using coin by (auto simp: signal_only_trade_def matched_trade_def result_only_trade_def)
qed

text \<open>
  A returned list of two or more trades holds a roi in every trade and is sorted by roi,
  highest first.
\<close>

lemma returned_trades_sorted:
  assumes "match_signals_to_results cfg processed_data = Inr trades" and "2 \<le> length trades"
  shows "(\<forall>t \<in> set trades. trade_roi t \<noteq> None)
     \<and> sorted (rev (map (\<lambda>t. the (trade_roi t)) trades))"
proof -
  let ?all = "collect_trades cfg processed_data"
  from match_signals_to_results_cases [OF assms(1)] assms(2)
  have body: "sort_by_roi ?all = Inr trades"
    by (auto simp: match_body_def)
  then have "length trades = length ?all"
    using sort_by_roi_mset [OF body] by (metis size_mset)
  then have long: "\<not> length ?all < 2"
    using assms(2) by simp
  have none: "\<not> list_ex (\<lambda>t. trade_roi t = None) ?all"
    and sorted_eq: "trades = sort_key (\<lambda>t. - the (trade_roi t)) ?all"
    using body long by (auto simp: sort_by_roi_def split: if_splits)
  have "\<forall>t \<in> set trades. trade_roi t \<noteq> None"
    using none sorted_eq by (auto simp: list_ex_iff)
  moreover have "sorted (map (\<lambda>t. - the (trade_roi t)) trades)"
    unfolding sorted_eq by (rule sorted_sort_key)
  then have "sorted (rev (map (\<lambda>t. the (trade_roi t)) trades))"
  proof (induction trades)
    case Nil
    show ?case by simp
  next
    case (Cons t ts)
    then show ?case
      by (auto simp: sorted_append)
  qed
  ultimately show ?thesis by simp
qed

end
